theory Spec2Isabelle
  imports Complex_Main "HOL-Library.Word"
begin

unbundle bit_operations_syntax

section \<open>Strings of the JavaScript runtime\<close>

text \<open>
  A JavaScript string is a sequence of 16-bit code units, and \<open>.length\<close> counts them.
  The ASCII literals of \<open>call-gemini.js\<close> are written \<open>ascii ''...''\<close>; its Japanese
  messages are given by their code units.
\<close>

type_synonym js_string = "16 word list"

definition ascii :: "string \<Rightarrow> js_string" where
  "ascii s = map (\<lambda>c. word_of_nat (of_char c)) s"

section \<open>The rate limiter\<close>

text \<open>
  \<^verbatim>\<open>const rateLimit = new Map();\<close> maps a client address to the array of the instants
  (\<open>Date.now()\<close>, milliseconds) of its admitted requests.
\<close>

type_synonym rate_limit = "js_string \<rightharpoonup> int list"

definition RATE_LIMIT_WINDOW :: int where
  "RATE_LIMIT_WINDOW = 60000"

definition MAX_REQUESTS_PER_WINDOW :: nat where
  "MAX_REQUESTS_PER_WINDOW = 30"

definition MAX_PAYLOAD_SIZE :: nat where
  "MAX_PAYLOAD_SIZE = 100000"

text \<open>\<^verbatim>\<open>rateLimit.get(ip) || []\<close>: an array, even an empty one, is truthy.\<close>

definition userRequests :: "rate_limit \<Rightarrow> js_string \<Rightarrow> int list" where
  "userRequests rateLimit ip = (case rateLimit ip of None \<Rightarrow> [] | Some ts \<Rightarrow> ts)"

definition recentRequests :: "int \<Rightarrow> rate_limit \<Rightarrow> js_string \<Rightarrow> int list" where
  "recentRequests now rateLimit ip =
     filter (\<lambda>time. now - time < RATE_LIMIT_WINDOW) (userRequests rateLimit ip)"

text \<open>
  \<open>checkRateLimit\<close> reads the clock once (\<open>now\<close>) and returns its verdict together
  with the map as the call leaves it.
\<close>

definition checkRateLimit :: "int \<Rightarrow> rate_limit \<Rightarrow> js_string \<Rightarrow> bool \<times> rate_limit" where
  "checkRateLimit now rateLimit ip =
     (if length (recentRequests now rateLimit ip) \<ge> MAX_REQUESTS_PER_WINDOW
      then (False, rateLimit)
      else (True, rateLimit(ip \<mapsto> recentRequests now rateLimit ip @ [now])))"

subsection \<open>Sequences of checks\<close>

text \<open>
  A process serves its requests one after the other. A run starts from the empty map and
  performs the checks of a list of calls (address, instant) in order; beside the map it
  keeps the calls that were admitted.
\<close>

type_synonym call = "js_string \<times> int"

definition check_step :: "rate_limit \<times> call list \<Rightarrow> call \<Rightarrow> rate_limit \<times> call list" where
  "check_step s c =
     (case checkRateLimit (snd c) (fst s) (fst c) of
        (ok, rateLimit') \<Rightarrow> (rateLimit', if ok then snd s @ [c] else snd s))"

definition run_checks :: "call list \<Rightarrow> rate_limit \<times> call list" where
  "run_checks cs = foldl check_step (Map.empty, []) cs"

definition admitted :: "call list \<Rightarrow> js_string \<Rightarrow> int list" where
  "admitted cs ip = map snd (filter (\<lambda>c. fst c = ip) (snd (run_checks cs)))"

text \<open>The trailing window that ends at the instant \<open>t\<close>.\<close>

definition in_window :: "int \<Rightarrow> int \<Rightarrow> bool" where
  "in_window t a \<longleftrightarrow> a \<le> t \<and> t - a < RATE_LIMIT_WINDOW"

text \<open>The test of \<open>checkRateLimit\<close> on a call: the client's window holds 30 instants or more.\<close>

definition window_full :: "rate_limit \<Rightarrow> call \<Rightarrow> bool" where
  "window_full rateLimit c \<longleftrightarrow>
     MAX_REQUESTS_PER_WINDOW \<le> length (recentRequests (snd c) rateLimit (fst c))"

section \<open>JSON documents\<close>

text \<open>
  The values \<open>JSON.parse\<close> produces. A number is an IEEE double: a finite one is
  represented by its rational value (both zeros by \<open>0\<close>), and an overflowing literal
  parses to an infinity. An object is the list of its members in property order.
\<close>

datatype js_number = Finite rat | PosInfinity | NegInfinity

datatype json =
    JNull
  | JBool bool
  | JNum js_number
  | JStr js_string
  | JArr "json list"
  | JObj "(js_string \<times> json) list"

datatype js_error = TypeError | SyntaxError | RangeError | Error js_string

text \<open>\<open>!v\<close> is \<open>\<not> truthy v\<close>.\<close>

fun truthy :: "json \<Rightarrow> bool" where
  "truthy JNull = False"
| "truthy (JBool b) = b"
| "truthy (JNum n) = (n \<noteq> Finite 0)"
| "truthy (JStr s) = (s \<noteq> [])"
| "truthy (JArr xs) = True"
| "truthy (JObj kvs) = True"

fun typeof :: "json \<Rightarrow> js_string" where
  "typeof JNull = ascii ''object''"
| "typeof (JBool b) = ascii ''boolean''"
| "typeof (JNum n) = ascii ''number''"
| "typeof (JStr s) = ascii ''string''"
| "typeof (JArr xs) = ascii ''object''"
| "typeof (JObj kvs) = ascii ''object''"

fun Array_isArray :: "json \<Rightarrow> bool" where
  "Array_isArray (JArr xs) = True"
| "Array_isArray v = False"

text \<open>
  The property read \<open>requestBody.contents\<close>: \<open>None\<close> is \<open>undefined\<close>. Reading a property
  of \<open>null\<close> throws; an array and a boxed primitive have no property of that name.
\<close>

fun contents :: "json \<Rightarrow> js_error + json option" where
  "contents JNull = Inl TypeError"
| "contents (JObj kvs) = Inr (map_of kvs (ascii ''contents''))"
| "contents v = Inr None"

subsection \<open>\<open>JSON.stringify\<close>\<close>

definition hex_digit :: "16 word \<Rightarrow> 16 word" where
  "hex_digit d = (if d < 10 then 0x30 + d else 0x57 + d)"

definition unicode_escape :: "16 word \<Rightarrow> js_string" where
  "unicode_escape c =
     [0x5C, 0x75, hex_digit (drop_bit 12 c AND 0xF), hex_digit (drop_bit 8 c AND 0xF),
      hex_digit (drop_bit 4 c AND 0xF), hex_digit (c AND 0xF)]"

definition is_high_surrogate :: "16 word \<Rightarrow> bool" where
  "is_high_surrogate c \<longleftrightarrow> 0xD800 \<le> c \<and> c \<le> 0xDBFF"

definition is_low_surrogate :: "16 word \<Rightarrow> bool" where
  "is_low_surrogate c \<longleftrightarrow> 0xDC00 \<le> c \<and> c \<le> 0xDFFF"

text \<open>One code unit that is not a surrogate, as \<open>QuoteJSONString\<close> writes it.\<close>

definition quote_unit :: "16 word \<Rightarrow> js_string" where
  "quote_unit c =
     (if c = 0x08 then [0x5C, 0x62]
      else if c = 0x09 then [0x5C, 0x74]
      else if c = 0x0A then [0x5C, 0x6E]
      else if c = 0x0C then [0x5C, 0x66]
      else if c = 0x0D then [0x5C, 0x72]
      else if c = 0x22 then [0x5C, 0x22]
      else if c = 0x5C then [0x5C, 0x5C]
      else if c < 0x20 then unicode_escape c
      else [c])"

text \<open>A surrogate pair is copied; a lone surrogate is escaped.\<close>

fun quote_units :: "js_string \<Rightarrow> js_string" where
  "quote_units [] = []"
| "quote_units (c # cs) =
     (if is_high_surrogate c then
        (case cs of
           [] \<Rightarrow> unicode_escape c
         | d # ds \<Rightarrow>
             if is_low_surrogate d then c # d # quote_units ds
             else unicode_escape c @ quote_units cs)
      else if is_low_surrogate c then unicode_escape c @ quote_units cs
      else quote_unit c @ quote_units cs)"

definition QuoteJSONString :: "js_string \<Rightarrow> js_string" where
  "QuoteJSONString s = [0x22] @ quote_units s @ [0x22]"

text \<open>
  The text that \<open>JSON.stringify\<close>, with one argument, writes for a parsed document. The
  shortest decimal text of a finite double (\<open>Number::toString\<close>) is a parameter; an
  infinity is written \<open>null\<close>.
\<close>

fun json_text :: "(rat \<Rightarrow> js_string) \<Rightarrow> json \<Rightarrow> js_string"
  and elements_text :: "(rat \<Rightarrow> js_string) \<Rightarrow> json list \<Rightarrow> js_string"
  and members_text :: "(rat \<Rightarrow> js_string) \<Rightarrow> (js_string \<times> json) list \<Rightarrow> js_string"
where
  "json_text ts JNull = ascii ''null''"
| "json_text ts (JBool b) = (if b then ascii ''true'' else ascii ''false'')"
| "json_text ts (JNum n) = (case n of Finite q \<Rightarrow> ts q | _ \<Rightarrow> ascii ''null'')"
| "json_text ts (JStr s) = QuoteJSONString s"
| "json_text ts (JArr xs) = ascii ''['' @ elements_text ts xs @ ascii '']''"
| "json_text ts (JObj kvs) = ascii ''{'' @ members_text ts kvs @ ascii ''}''"
| "elements_text ts [] = []"
| "elements_text ts [x] = json_text ts x"
| "elements_text ts (x # y # ys) = json_text ts x @ ascii '','' @ elements_text ts (y # ys)"
| "members_text ts [] = []"
| "members_text ts [(k, v)] = QuoteJSONString k @ ascii '':'' @ json_text ts v"
| "members_text ts ((k, v) # m # ms) =
     QuoteJSONString k @ ascii '':'' @ json_text ts v @ ascii '','' @ members_text ts (m # ms)"

text \<open>How deep the arrays and objects of a document are nested.\<close>

fun nesting :: "json \<Rightarrow> nat"
  and nesting_elements :: "json list \<Rightarrow> nat"
  and nesting_members :: "(js_string \<times> json) list \<Rightarrow> nat"
where
  "nesting (JArr xs) = Suc (nesting_elements xs)"
| "nesting (JObj kvs) = Suc (nesting_members kvs)"
| "nesting v = 0"
| "nesting_elements [] = 0"
| "nesting_elements (x # xs) = max (nesting x) (nesting_elements xs)"
| "nesting_members [] = 0"
| "nesting_members ((k, v) # ms) = max (nesting v) (nesting_members ms)"

text \<open>
  \<open>JSON.stringify\<close> serialises by recursion over the document and throws a \<open>RangeError\<close>
  when the call stack is exhausted. How many nested levels the stack of the engine allows
  is a parameter (\<open>limit\<close>).
\<close>

definition JSON_stringify :: "nat \<Rightarrow> (rat \<Rightarrow> js_string) \<Rightarrow> json \<Rightarrow> js_error + js_string" where
  "JSON_stringify limit ts v =
     (if nesting v > limit then Inl RangeError else Inr (json_text ts v))"

section \<open>The request validator\<close>

text \<open>A \<open>throw\<close> is the left injection.\<close>

definition validateRequest ::
  "nat \<Rightarrow> (rat \<Rightarrow> js_string) \<Rightarrow> json \<Rightarrow> js_error + bool" where
  "validateRequest limit ts requestBody =
     (if \<not> truthy requestBody \<or> typeof requestBody \<noteq> ascii ''object''
      then Inl (Error (ascii ''Invalid request body''))
      else case contents requestBody of
        Inl e \<Rightarrow> Inl e
      | Inr c \<Rightarrow>
          if (case c of None \<Rightarrow> True | Some v \<Rightarrow> \<not> truthy v \<or> \<not> Array_isArray v)
          then Inl (Error (ascii ''Invalid contents format''))
          else case JSON_stringify limit ts requestBody of
            Inl e \<Rightarrow> Inl e
          | Inr text \<Rightarrow>
              if length text > MAX_PAYLOAD_SIZE
              then Inl (Error (ascii ''Request payload too large''))
              else Inr True)"

section \<open>The handler\<close>

text \<open>
  A property of the event is \<open>undefined\<close> (missing), \<open>null\<close> or a value. In the \<open>headers\<close>
  object a header that is absent reads as \<open>undefined\<close> (\<open>None\<close>).
\<close>

datatype 'a js_field = Undefined | Null | Value 'a

record event =
  headers :: "(js_string \<rightharpoonup> js_string) js_field"
  httpMethod :: "js_string js_field"
  body :: "js_string js_field"

record response =
  statusCode :: nat
  headers :: "(js_string \<times> js_string) list"
  body :: js_string

text \<open>The outbound call \<open>fetch(url, init)\<close>, with the fields of \<open>init\<close>, and what it settles to.\<close>

datatype request =
  Request (request_url: js_string) (request_method: js_string)
    (request_headers: "(js_string \<times> js_string) list") (request_body: js_string)

text \<open>
  \<open>Rejects\<close>: the promise of \<open>fetch\<close> rejects (no response). \<open>Resolves status j\<close>: a
  response with that status, whose \<open>response.json()\<close> settles to \<open>j\<close>.
\<close>

datatype fetch_result = Rejects js_error | Resolves nat "js_error + json"

text \<open>\<open>response.ok\<close> of the Fetch standard: the status is in the range 200 to 299.\<close>

definition ok :: "nat \<Rightarrow> bool" where
  "ok status \<longleftrightarrow> 200 \<le> status \<and> status \<le> 299"

text \<open>
  What one invocation reads from its surroundings: the clock, the environment variable,
  the upstream, and the engine (\<open>JSON.parse\<close>, where \<open>None\<close> is a throw, the printing of
  numbers, and the nesting its stack allows \<open>JSON.stringify\<close>).
\<close>

record env =
  Date_now :: int
  GEMINI_API_KEY :: "js_string option"
  fetch :: "request \<Rightarrow> fetch_result"
  JSON_parse :: "js_string \<Rightarrow> json option"
  Number_toString :: "rat \<Rightarrow> js_string"
  stack_limit :: nat

text \<open>What one invocation does beside returning: the calls of \<open>console.error\<close> and \<open>fetch\<close>.\<close>

datatype log_arg = LogText js_string | LogNumber nat | LogJson json | LogError js_error

datatype effect = ConsoleError "log_arg list" | Fetch request

text \<open>
  \<open>returned\<close> is the envelope the handler resolves to, or the exception it rejects with;
  \<open>rateLimit\<close> is the map as the invocation leaves it.
\<close>

record outcome =
  returned :: "js_error + response"
  rateLimit :: rate_limit
  effects :: "effect list"

text \<open>The Japanese messages of the error bodies, in the order of the source.\<close>

definition msg_too_many_requests :: js_string where
  "msg_too_many_requests =
     [0x30EA, 0x30AF, 0x30A8, 0x30B9, 0x30C8, 0x304C, 0x591A, 0x3059, 0x304E, 0x307E,
      0x3059, 0x3002, 0x3057, 0x3070, 0x3089, 0x304F, 0x3057, 0x3066, 0x304B, 0x3089,
      0x518D, 0x5EA6, 0x304A, 0x8A66, 0x3057, 0x304F, 0x3060, 0x3055, 0x3044, 0x3002]"

definition msg_invalid_request :: js_string where
  "msg_invalid_request =
     [0x7121, 0x52B9, 0x306A, 0x30EA, 0x30AF, 0x30A8, 0x30B9, 0x30C8, 0x3067, 0x3059,
      0x3002]"

definition msg_server_config :: js_string where
  "msg_server_config =
     [0x30B5, 0x30FC, 0x30D0, 0x30FC, 0x8A2D, 0x5B9A, 0x30A8, 0x30E9, 0x30FC, 0x3002,
      0x7BA1, 0x7406, 0x8005, 0x306B, 0x9023, 0x7D61, 0x3057, 0x3066, 0x304F, 0x3060,
      0x3055, 0x3044, 0x3002]"

definition msg_upstream_rate_limit :: js_string where
  "msg_upstream_rate_limit =
     ascii ''API'' @
     [0x306E, 0x30EC, 0x30FC, 0x30C8, 0x5236, 0x9650, 0x306B, 0x9054, 0x3057, 0x307E,
      0x3057, 0x305F, 0x3002, 0x3057, 0x3070, 0x3089, 0x304F, 0x3057, 0x3066, 0x304B,
      0x3089, 0x518D, 0x5EA6, 0x304A, 0x8A66, 0x3057, 0x304F, 0x3060, 0x3055, 0x3044,
      0x3002]"

definition msg_upstream_failed :: js_string where
  "msg_upstream_failed =
     ascii ''Gemini API'' @
     [0x306E, 0x547C, 0x3073, 0x51FA, 0x3057, 0x306B, 0x5931, 0x6557, 0x3057, 0x307E,
      0x3057, 0x305F, 0x3002]"

definition msg_server_error :: js_string where
  "msg_server_error =
     [0x30B5, 0x30FC, 0x30D0, 0x30FC, 0x30A8, 0x30E9, 0x30FC, 0x304C, 0x767A, 0x751F,
      0x3057, 0x307E, 0x3057, 0x305F, 0x3002]"

text \<open>\<open>a || b\<close> on a header value: \<open>undefined\<close> and the empty string are falsy.\<close>

definition string_or :: "js_string option \<Rightarrow> js_string \<Rightarrow> js_string" where
  "string_or a b = (case a of None \<Rightarrow> b | Some s \<Rightarrow> if s = [] then b else s)"

definition clientIp :: "(js_string \<rightharpoonup> js_string) \<Rightarrow> js_string" where
  "clientIp hs =
     string_or (hs (ascii ''x-forwarded-for''))
       (string_or (hs (ascii ''client-ip'')) (ascii ''unknown''))"

definition GOOGLE_API_URL :: "js_string \<Rightarrow> js_string" where
  "GOOGLE_API_URL apiKey =
     ascii ''https://generativelanguage.googleapis.com/v1beta/models/gemini-2.5-flash-preview-09-2025:generateContent?key='' @ apiKey"

abbreviation content_type_json :: "js_string \<times> js_string" where
  "content_type_json \<equiv> (ascii ''Content-Type'', ascii ''application/json'')"

text \<open>
  \<open>JSON.stringify({ error: message })\<close>: an object with one string member, which is
  serialised without recursion into a nested document.
\<close>

definition error_body :: "env \<Rightarrow> js_string \<Rightarrow> js_string" where
  "error_body e message = json_text (Number_toString e) (JObj [(ascii ''error'', JStr message)])"

text \<open>\<open>JSON.parse\<close> converts its argument to a string first.\<close>

fun ToString :: "js_string js_field \<Rightarrow> js_string" where
  "ToString Undefined = ascii ''undefined''"
| "ToString Null = ascii ''null''"
| "ToString (Value text) = text"

text \<open>
  The first \<open>try\<close> block: \<open>JSON.parse(event.body)\<close>, then \<open>validateRequest\<close>. Either
  exception reaches the same \<open>catch\<close>.
\<close>

definition parse_and_validate :: "env \<Rightarrow> js_string js_field \<Rightarrow> js_error + json" where
  "parse_and_validate e b =
     (case JSON_parse e (ToString b) of
        None \<Rightarrow> Inl SyntaxError
      | Some requestBody \<Rightarrow>
          (case validateRequest (stack_limit e) (Number_toString e) requestBody of
             Inl err \<Rightarrow> Inl err
           | Inr _ \<Rightarrow> Inr requestBody))"

text \<open>The arguments of \<open>fetch\<close> when the body has been serialised.\<close>

definition upstream_request :: "env \<Rightarrow> js_string \<Rightarrow> json \<Rightarrow> request" where
  "upstream_request e apiKey requestBody =
     Request (GOOGLE_API_URL apiKey) (ascii ''POST'') [content_type_json]
       (json_text (Number_toString e) requestBody)"

text \<open>
  The second \<open>try\<close> block, from \<open>fetch\<close> to the last \<open>catch\<close>: the envelope and the
  effects. Its two calls of \<open>JSON.stringify\<close> (the body of the outbound call, evaluated
  before \<open>fetch\<close> is called, and the body of the 200 response) are inside the \<open>try\<close>.
\<close>

definition call_upstream :: "env \<Rightarrow> js_string \<Rightarrow> json \<Rightarrow> response \<times> effect list" where
  "call_upstream e apiKey requestBody =
     (let caught = (\<lambda>fx err.
            (\<lparr>statusCode = 500,
              headers = [content_type_json],
              body = error_body e msg_server_error\<rparr>,
             fx @ [ConsoleError [LogText (ascii ''Unexpected error:''), LogError err]]))
      in case JSON_stringify (stack_limit e) (Number_toString e) requestBody of
           Inl err \<Rightarrow> caught [] err
         | Inr text \<Rightarrow>
             (let req = Request (GOOGLE_API_URL apiKey) (ascii ''POST'') [content_type_json] text
              in case fetch e req of
                   Rejects err \<Rightarrow> caught [Fetch req] err
                 | Resolves status j \<Rightarrow>
                     if \<not> ok status then
                       (let errorData = (case j of Inl _ \<Rightarrow> JObj [] | Inr d \<Rightarrow> d)
                        in (\<lparr>statusCode = (if status = 429 then 429 else 500),
                             headers = [content_type_json],
                             body = error_body e
                               (if status = 429 then msg_upstream_rate_limit
                                else msg_upstream_failed)\<rparr>,
                            [Fetch req,
                             ConsoleError [LogText (ascii ''Gemini API Error:''),
                                           LogNumber status, LogJson errorData]]))
                     else
                       (case j of
                          Inl err \<Rightarrow> caught [Fetch req] err
                        | Inr data \<Rightarrow>
                            (case JSON_stringify (stack_limit e) (Number_toString e) data of
                               Inl err \<Rightarrow> caught [Fetch req] err
                             | Inr text' \<Rightarrow>
                                 (\<lparr>statusCode = 200,
                                   headers = [content_type_json,
                                     (ascii ''Cache-Control'',
                                      ascii ''no-store, no-cache, must-revalidate''),
                                     (ascii ''X-Content-Type-Options'', ascii ''nosniff'')],
                                   body = text'\<rparr>,
                                  [Fetch req])))))"

text \<open>The return of the branch \<open>if (!apiKey)\<close>: an absent or empty key.\<close>

definition misconfigured :: "env \<Rightarrow> rate_limit \<Rightarrow> outcome" where
  "misconfigured e rl =
     \<lparr>returned = Inr
        \<lparr>statusCode = 500,
         headers = [content_type_json],
         body = error_body e msg_server_config\<rparr>,
      rateLimit = rl,
      effects = [ConsoleError [LogText (ascii ''GEMINI_API_KEY is not configured'')]]\<rparr>"

text \<open>
  \<open>exports.handler\<close>. The checks follow the source from top to bottom; the first statement,
  \<open>event.headers['x-forwarded-for']\<close>, is outside every \<open>try\<close> and throws a \<open>TypeError\<close> on
  an event whose \<open>headers\<close> is \<open>undefined\<close> or \<open>null\<close>.
\<close>

definition handler :: "env \<Rightarrow> rate_limit \<Rightarrow> event \<Rightarrow> outcome" where
  "handler e rl ev =
     (case event.headers ev of
        Undefined \<Rightarrow> \<lparr>returned = Inl TypeError, rateLimit = rl, effects = []\<rparr>
      | Null \<Rightarrow> \<lparr>returned = Inl TypeError, rateLimit = rl, effects = []\<rparr>
      | Value hs \<Rightarrow>
          (case checkRateLimit (Date_now e) rl (clientIp hs) of
             (allowed, rl') \<Rightarrow>
               if \<not> allowed then
                 \<lparr>returned = Inr
                    \<lparr>statusCode = 429,
                     headers = [content_type_json,
                                (ascii ''Retry-After'', ascii ''60'')],
                     body = error_body e msg_too_many_requests\<rparr>,
                  rateLimit = rl', effects = []\<rparr>
               else if httpMethod ev \<noteq> Value (ascii ''POST'') then
                 \<lparr>returned = Inr
                    \<lparr>statusCode = 405,
                     headers = [content_type_json,
                                (ascii ''Allow'', ascii ''POST'')],
                     body = error_body e (ascii ''Method not allowed'')\<rparr>,
                  rateLimit = rl', effects = []\<rparr>
               else
                 (case parse_and_validate e (event.body ev) of
                    Inl err \<Rightarrow>
                      \<lparr>returned = Inr
                         \<lparr>statusCode = 400,
                          headers = [content_type_json],
                          body = error_body e msg_invalid_request\<rparr>,
                       rateLimit = rl', effects = []\<rparr>
                  | Inr requestBody \<Rightarrow>
                      (case GEMINI_API_KEY e of
                         None \<Rightarrow> misconfigured e rl'
                       | Some apiKey \<Rightarrow>
                           if apiKey = [] then misconfigured e rl'
                           else (case call_upstream e apiKey requestBody of
                                   (r, fx) \<Rightarrow>
                                     \<lparr>returned = Inr r, rateLimit = rl', effects = fx\<rparr>)))))"

section \<open>The validator in the words of the specification\<close>

text \<open>
  The specification rejects a body that does not parse, a parsed body that is not an
  object (null, a primitive or an array), one whose \<open>contents\<close> is absent or not an array,
  and one whose serialisation is longer than 100,000 code units. These definitions follow
  its words; the theorems compare them with \<open>validateRequest\<close>.
\<close>

fun is_object :: "json \<Rightarrow> bool" where
  "is_object (JObj kvs) = True"
| "is_object v = False"

fun contents_is_array :: "json \<Rightarrow> bool" where
  "contents_is_array (JObj kvs) =
     (case map_of kvs (ascii ''contents'') of Some (JArr xs) \<Rightarrow> True | _ \<Rightarrow> False)"
| "contents_is_array v = False"

definition spec_invalid_request :: "env \<Rightarrow> js_string \<Rightarrow> bool" where
  "spec_invalid_request e text \<longleftrightarrow>
     (case JSON_parse e text of
        None \<Rightarrow> True
      | Some v \<Rightarrow>
          \<not> is_object v \<or> \<not> contents_is_array v
          \<or> length (json_text (Number_toString e) v) > 100000)"

text \<open>
  Beside these, the code answers 400 when \<open>JSON.stringify\<close> throws on the parsed body:
  the document is nested deeper than the stack of the engine allows.
\<close>

definition serialisation_throws :: "env \<Rightarrow> js_string \<Rightarrow> bool" where
  "serialisation_throws e text \<longleftrightarrow>
     (case JSON_parse e text of None \<Rightarrow> False | Some v \<Rightarrow> nesting v > stack_limit e)"

text \<open>The outbound calls among the effects.\<close>

fun is_fetch :: "effect \<Rightarrow> bool" where
  "is_fetch (Fetch r) = True"
| "is_fetch (ConsoleError args) = False"

section \<open>Reading a serialised document back\<close>

text \<open>
  A reader of the compact JSON that \<open>json_text\<close> writes, used to say what a receiver finds
  in a body: it is not part of the handler. It decodes every escape sequence to its code
  unit, keeps the members of an object in their order, and takes the reading of numbers
  as a parameter (\<open>rn\<close>, which splits a number off the front of its input). The fuel
  bounds the recursion; the length of the text is enough.
\<close>

definition unhex :: "16 word \<Rightarrow> 16 word option" where
  "unhex c =
     (if 0x30 \<le> c \<and> c \<le> 0x39 then Some (c - 0x30)
      else if 0x61 \<le> c \<and> c \<le> 0x66 then Some (c - 0x57)
      else if 0x41 \<le> c \<and> c \<le> 0x46 then Some (c - 0x37)
      else None)"

definition read_hex4 :: "16 word \<Rightarrow> 16 word \<Rightarrow> 16 word \<Rightarrow> 16 word \<Rightarrow> 16 word option" where
  "read_hex4 h1 h2 h3 h4 =
     (case (unhex h1, unhex h2, unhex h3, unhex h4) of
        (Some a, Some b, Some c, Some d) \<Rightarrow>
          Some (push_bit 12 a OR push_bit 8 b OR push_bit 4 c OR d)
      | _ \<Rightarrow> None)"

definition unescape :: "16 word \<Rightarrow> 16 word option" where
  "unescape c =
     (if c = 0x62 then Some 0x08
      else if c = 0x74 then Some 0x09
      else if c = 0x6E then Some 0x0A
      else if c = 0x66 then Some 0x0C
      else if c = 0x72 then Some 0x0D
      else if c = 0x22 \<or> c = 0x5C \<or> c = 0x2F then Some c
      else None)"

definition cons_unit :: "16 word \<Rightarrow> (js_string \<times> js_string) option \<Rightarrow> (js_string \<times> js_string) option" where
  "cons_unit c res = (case res of None \<Rightarrow> None | Some (s, rest) \<Rightarrow> Some (c # s, rest))"

fun read_units :: "js_string \<Rightarrow> (js_string \<times> js_string) option" where
  "read_units [] = None"
| "read_units (c # cs) =
     (if c = 0x22 then Some ([], cs)
      else if c = 0x5C then
        (case cs of
           [] \<Rightarrow> None
         | e # es \<Rightarrow>
             if e = 0x75 then
               (case es of
                  h1 # h2 # h3 # h4 # rest \<Rightarrow>
                    (case read_hex4 h1 h2 h3 h4 of
                       None \<Rightarrow> None
                     | Some w \<Rightarrow> cons_unit w (read_units rest))
                | _ \<Rightarrow> None)
             else
               (case unescape e of
                  None \<Rightarrow> None
                | Some w \<Rightarrow> cons_unit w (read_units es)))
      else cons_unit c (read_units cs))"

fun read_value :: "(js_string \<Rightarrow> (rat \<times> js_string) option) \<Rightarrow> nat \<Rightarrow> js_string \<Rightarrow> (json \<times> js_string) option"
  and read_elements :: "(js_string \<Rightarrow> (rat \<times> js_string) option) \<Rightarrow> nat \<Rightarrow> js_string \<Rightarrow> (json list \<times> js_string) option"
  and read_members :: "(js_string \<Rightarrow> (rat \<times> js_string) option) \<Rightarrow> nat \<Rightarrow> js_string \<Rightarrow> ((js_string \<times> json) list \<times> js_string) option"
where
  "read_value rn 0 inp = None"
| "read_value rn (Suc n) inp =
     (case inp of
        [] \<Rightarrow> None
      | c # cs \<Rightarrow>
          if c = 0x22 then
            (case read_units cs of None \<Rightarrow> None | Some (s, rest) \<Rightarrow> Some (JStr s, rest))
          else if c = 0x5B then
            (case cs of
               [] \<Rightarrow> None
             | d # ds \<Rightarrow>
                 if d = 0x5D then Some (JArr [], ds)
                 else (case read_elements rn n cs of
                         None \<Rightarrow> None
                       | Some (xs, rest) \<Rightarrow> Some (JArr xs, rest)))
          else if c = 0x7B then
            (case cs of
               [] \<Rightarrow> None
             | d # ds \<Rightarrow>
                 if d = 0x7D then Some (JObj [], ds)
                 else (case read_members rn n cs of
                         None \<Rightarrow> None
                       | Some (kvs, rest) \<Rightarrow> Some (JObj kvs, rest)))
          else if take 4 inp = ascii ''null'' then Some (JNull, drop 4 inp)
          else if take 4 inp = ascii ''true'' then Some (JBool True, drop 4 inp)
          else if take 5 inp = ascii ''false'' then Some (JBool False, drop 5 inp)
          else (case rn inp of None \<Rightarrow> None | Some (q, rest) \<Rightarrow> Some (JNum (Finite q), rest)))"
| "read_elements rn 0 inp = None"
| "read_elements rn (Suc n) inp =
     (case read_value rn n inp of
        None \<Rightarrow> None
      | Some (x, rest) \<Rightarrow>
          (case rest of
             [] \<Rightarrow> None
           | c # cs \<Rightarrow>
               if c = 0x5D then Some ([x], cs)
               else if c = 0x2C then
                 (case read_elements rn n cs of
                    None \<Rightarrow> None
                  | Some (xs, rest') \<Rightarrow> Some (x # xs, rest'))
               else None))"
| "read_members rn 0 inp = None"
| "read_members rn (Suc n) inp =
     (case inp of
        [] \<Rightarrow> None
      | q # qs \<Rightarrow>
          if q \<noteq> 0x22 then None
          else (case read_units qs of
                  None \<Rightarrow> None
                | Some (k, rest) \<Rightarrow>
                    (case rest of
                       [] \<Rightarrow> None
                     | c # cs \<Rightarrow>
                         if c \<noteq> 0x3A then None
                         else (case read_value rn n cs of
                                 None \<Rightarrow> None
                               | Some (v, rest') \<Rightarrow>
                                   (case rest' of
                                      [] \<Rightarrow> None
                                    | d # ds \<Rightarrow>
                                        if d = 0x7D then Some ([(k, v)], ds)
                                        else if d = 0x2C then
                                          (case read_members rn n ds of
                                             None \<Rightarrow> None
                                           | Some (kvs, rest'') \<Rightarrow> Some ((k, v) # kvs, rest''))
                                        else None)))))"

definition read_json :: "(js_string \<Rightarrow> (rat \<times> js_string) option) \<Rightarrow> js_string \<Rightarrow> json option" where
  "read_json rn text =
     (case read_value rn (length text) text of
        Some (v, []) \<Rightarrow> Some v
      | _ \<Rightarrow> None)"

text \<open>The document with every infinite number replaced by \<open>null\<close>.\<close>

fun nullify :: "json \<Rightarrow> json"
  and nullify_elements :: "json list \<Rightarrow> json list"
  and nullify_members :: "(js_string \<times> json) list \<Rightarrow> (js_string \<times> json) list"
where
  "nullify (JNum n) = (case n of Finite q \<Rightarrow> JNum (Finite q) | _ \<Rightarrow> JNull)"
| "nullify (JArr xs) = JArr (nullify_elements xs)"
| "nullify (JObj kvs) = JObj (nullify_members kvs)"
| "nullify v = v"
| "nullify_elements [] = []"
| "nullify_elements (x # xs) = nullify x # nullify_elements xs"
| "nullify_members [] = []"
| "nullify_members ((k, v) # ms) = (k, nullify v) # nullify_members ms"

text \<open>The finite numbers of a document.\<close>

fun numbers :: "json \<Rightarrow> rat list"
  and numbers_elements :: "json list \<Rightarrow> rat list"
  and numbers_members :: "(js_string \<times> json) list \<Rightarrow> rat list"
where
  "numbers (JNum n) = (case n of Finite q \<Rightarrow> [q] | _ \<Rightarrow> [])"
| "numbers (JArr xs) = numbers_elements xs"
| "numbers (JObj kvs) = numbers_members kvs"
| "numbers v = []"
| "numbers_elements [] = []"
| "numbers_elements (x # xs) = numbers x @ numbers_elements xs"
| "numbers_members [] = []"
| "numbers_members ((k, v) # ms) = numbers v @ numbers_members ms"

text \<open>
  What follows a value in a text: nothing, a comma or a closing bracket. \<open>rn\<close> reads the
  number \<open>q\<close> when it splits the text of \<open>q\<close> off whatever delimited rest follows, and that
  text does not begin like another kind of value or like a closing bracket.
\<close>

definition delimited :: "js_string \<Rightarrow> bool" where
  "delimited rest \<longleftrightarrow> (case rest of [] \<Rightarrow> True | c # cs \<Rightarrow> c = 0x2C \<or> c = 0x5D \<or> c = 0x7D)"

definition reads_number :: "(rat \<Rightarrow> js_string) \<Rightarrow> (js_string \<Rightarrow> (rat \<times> js_string) option) \<Rightarrow> rat \<Rightarrow> bool" where
  "reads_number ts rn q \<longleftrightarrow>
     (\<exists>c cs. ts q = c # cs \<and> c \<notin> {0x22, 0x5B, 0x5D, 0x7B, 0x7D, 0x6E, 0x74, 0x66})
     \<and> (\<forall>rest. delimited rest \<longrightarrow> rn (ts q @ rest) = Some (q, rest))"

section \<open>Inputs of the examples\<close>

text \<open>Thirty calls of one client, one second apart, from the instant 0.\<close>

definition thirty_calls :: "call list" where
  "thirty_calls = map (\<lambda>i. (ascii ''203.0.113.7'', 1000 * int i)) [0..<30]"

text \<open>Thirty calls of one client at the instant 0, one at 60000 and then one at 59999.\<close>

definition clock_back_calls :: "call list" where
  "clock_back_calls =
     map (\<lambda>i. (ascii ''203.0.113.7'', 0)) [0..<30 :: nat]
       @ [(ascii ''203.0.113.7'', 60000), (ascii ''203.0.113.7'', 59999)]"

text \<open>A map that holds thirty instants of one client, all at 5 ms.\<close>

definition full_store :: rate_limit where
  "full_store = [ascii ''203.0.113.7'' \<mapsto> replicate 30 5]"

text \<open>The body \<^verbatim>\<open>{"contents": []}\<close> (0x22 is the double quote) and a body that is not JSON.\<close>

definition text_contents_empty :: js_string where
  "text_contents_empty = ascii ''{'' @ [0x22] @ ascii ''contents'' @ [0x22] @ ascii '': []}''"

definition text_not_json :: js_string where
  "text_not_json = ascii ''{not json''"

text \<open>
  The body \<^verbatim>\<open>{"contents":[],"x":1e999}\<close>, whose number overflows to \<open>Infinity\<close> when it is
  parsed.
\<close>

definition text_infinite :: js_string where
  "text_infinite =
     ascii ''{'' @ [0x22] @ ascii ''contents'' @ [0x22] @ ascii '':[],'' @ [0x22] @ ascii ''x''
       @ [0x22] @ ascii '':1e999}''"

definition infinite_document :: json where
  "infinite_document = JObj [(ascii ''contents'', JArr []), (ascii ''x'', JNum PosInfinity)]"

text \<open>
  Arrays nested in arrays, and the body \<^verbatim>\<open>{"contents":[[...]]}\<close> of 9013 code units whose
  \<open>contents\<close> is 4500 arrays deep.
\<close>

fun nest_array :: "nat \<Rightarrow> json" where
  "nest_array 0 = JArr []"
| "nest_array (Suc n) = JArr [nest_array n]"

definition deep_document :: json where
  "deep_document = JObj [(ascii ''contents'', nest_array 4499)]"

definition text_deep :: js_string where
  "text_deep =
     ascii ''{'' @ [0x22] @ ascii ''contents'' @ [0x22] @ ascii '':'' @ replicate 4500 0x5B
       @ replicate 4500 0x5D @ ascii ''}''"

text \<open>
  The parser of the examples knows five texts and refuses every other one. The number
  printer of the examples writes \<open>0\<close>, the only finite number that occurs in them, and
  their number reader reads it.
\<close>

definition sample_parse :: "js_string \<Rightarrow> json option" where
  "sample_parse text =
     (if text = text_contents_empty then Some (JObj [(ascii ''contents'', JArr [])])
      else if text = ascii ''[]'' then Some (JArr [])
      else if text = ascii ''null'' then Some JNull
      else if text = text_infinite then Some infinite_document
      else if text = text_deep then Some deep_document
      else None)"

definition sample_read_number :: "js_string \<Rightarrow> (rat \<times> js_string) option" where
  "sample_read_number inp =
     (case inp of [] \<Rightarrow> None | c # cs \<Rightarrow> if c = 0x30 then Some (0, cs) else None)"

text \<open>
  The surroundings of the examples: the clock at 60004 ms, the given key, an upstream
  that answers every call with the given result, and an engine whose stack allows 4000
  nested levels.
\<close>

definition sample_env :: "js_string option \<Rightarrow> fetch_result \<Rightarrow> env" where
  "sample_env key answer =
     \<lparr>Date_now = 60004,
      GEMINI_API_KEY = key,
      fetch = (\<lambda>r. answer),
      JSON_parse = sample_parse,
      Number_toString = (\<lambda>q. ascii ''0''),
      stack_limit = 4000\<rparr>"

definition answer_foo_bar :: fetch_result where
  "answer_foo_bar = Resolves 200 (Inr (JObj [(ascii ''foo'', JStr (ascii ''bar''))]))"

definition sample_headers :: "js_string \<rightharpoonup> js_string" where
  "sample_headers = [ascii ''x-forwarded-for'' \<mapsto> ascii ''203.0.113.7'']"

definition post_event :: "js_string js_field \<Rightarrow> event" where
  "post_event b =
     \<lparr>event.headers = Value sample_headers, httpMethod = Value (ascii ''POST''), body = b\<rparr>"

definition get_event :: event where
  "get_event =
     \<lparr>event.headers = Value sample_headers, httpMethod = Value (ascii ''GET''), body = Null\<rparr>"

definition headerless_event :: event where
  "headerless_event =
     \<lparr>event.headers = Undefined, httpMethod = Value (ascii ''POST''),
      body = Value text_contents_empty\<rparr>"

section \<open>Properties of the rate limiter\<close>

lemma run_checks_Nil: "run_checks [] = (Map.empty, [])"
  by (simp add: run_checks_def)

lemma run_checks_snoc: "run_checks (cs @ [c]) = check_step (run_checks cs) c"
  by (simp add: run_checks_def)

text \<open>One more call: what the client's array and the admitted calls become.\<close>

lemma userRequests_step:
  "userRequests (fst (check_step s c)) ip =
     (if window_full (fst s) c \<or> fst c \<noteq> ip then userRequests (fst s) ip
      else recentRequests (snd c) (fst s) ip @ [snd c])"
  by (auto simp: check_step_def checkRateLimit_def userRequests_def window_full_def)

lemma admitted_Nil: "admitted [] ip = []"
  by (simp add: admitted_def run_checks_Nil)

lemma admitted_snoc:
  "admitted (cs @ [c]) ip =
     (if window_full (fst (run_checks cs)) c \<or> fst c \<noteq> ip
      then admitted cs ip else admitted cs ip @ [snd c])"
  by (auto simp: admitted_def run_checks_snoc check_step_def checkRateLimit_def
      window_full_def)

lemma admitted_is_call:
  "a \<in> set (admitted cs ip) \<Longrightarrow> \<exists>c\<in>set cs. snd c = a"
proof (induction cs rule: rev_induct)
  case Nil
  then show ?case by (simp add: admitted_Nil)
next
  case (snoc c cs)
  then show ?case by (auto simp: admitted_snoc split: if_splits)
qed

text \<open>
  While the clock does not go back, pruning loses nothing a later check would count: what
  a check keeps of the stored array is what it would keep of all admitted instants.
\<close>

lemma recent_exact:
  "sorted (map snd cs) \<Longrightarrow> \<forall>c\<in>set cs. snd c \<le> now \<Longrightarrow>
   recentRequests now (fst (run_checks cs)) ip =
     filter (\<lambda>a. now - a < RATE_LIMIT_WINDOW) (admitted cs ip)"
proof (induction cs arbitrary: now rule: rev_induct)
  case Nil
  then show ?case
    by (simp add: run_checks_Nil admitted_Nil recentRequests_def userRequests_def)
next
  case (snoc c cs)
  from snoc.prems have srt: "sorted (map snd cs)" and now: "snd c \<le> now"
    and le: "\<forall>x\<in>set cs. snd x \<le> snd c"
    by (auto simp: sorted_append)
  from le now have "\<forall>x\<in>set cs. snd x \<le> now" by auto
  note IH = snoc.IH [OF srt this]
  show ?case
  proof (cases "window_full (fst (run_checks cs)) c \<or> fst c \<noteq> ip")
    case True
    then show ?thesis
      using IH
      by (simp add: run_checks_snoc userRequests_step admitted_snoc recentRequests_def)
  next
    case False
    have "filter (\<lambda>a. now - a < RATE_LIMIT_WINDOW)
            (recentRequests (snd c) (fst (run_checks cs)) ip)
        = filter (\<lambda>a. now - a < RATE_LIMIT_WINDOW) (userRequests (fst (run_checks cs)) ip)"
      using now by (auto simp: recentRequests_def intro: filter_cong)
    also have "\<dots> = filter (\<lambda>a. now - a < RATE_LIMIT_WINDOW) (admitted cs ip)"
      using IH by (simp add: recentRequests_def)
    finally have kept: "filter (\<lambda>a. now - a < RATE_LIMIT_WINDOW)
            (recentRequests (snd c) (fst (run_checks cs)) ip)
        = filter (\<lambda>a. now - a < RATE_LIMIT_WINDOW) (admitted cs ip)" .
    have "recentRequests now (fst (run_checks (cs @ [c]))) ip =
       filter (\<lambda>a. now - a < RATE_LIMIT_WINDOW)
         (recentRequests (snd c) (fst (run_checks cs)) ip @ [snd c])"
      using False by (simp add: run_checks_snoc userRequests_step recentRequests_def)
    with False kept show ?thesis
      by (simp add: admitted_snoc)
  qed
qed

lemma recent_in_window:
  assumes "sorted (map snd cs)" "\<forall>c\<in>set cs. snd c \<le> now"
  shows "recentRequests now (fst (run_checks cs)) ip = filter (in_window now) (admitted cs ip)"
proof -
  have "\<forall>a\<in>set (admitted cs ip). a \<le> now"
    using assms(2) admitted_is_call by fastforce
  then have "filter (\<lambda>a. now - a < RATE_LIMIT_WINDOW) (admitted cs ip)
      = filter (in_window now) (admitted cs ip)"
    by (auto simp: in_window_def intro: filter_cong)
  with recent_exact [OF assms] show ?thesis by simp
qed

lemma window_bound:
  "sorted (map snd cs) \<Longrightarrow>
   length (filter (in_window t) (admitted cs ip)) \<le> MAX_REQUESTS_PER_WINDOW"
proof (induction cs rule: rev_induct)
  case Nil
  then show ?case by (simp add: admitted_Nil)
next
  case (snoc c cs)
  from snoc.prems have srt: "sorted (map snd cs)" and le: "\<forall>x\<in>set cs. snd x \<le> snd c"
    by (auto simp: sorted_append)
  note IH = snoc.IH [OF srt]
  show ?case
  proof (cases "window_full (fst (run_checks cs)) c \<or> fst c \<noteq> ip \<or> \<not> in_window t (snd c)")
    case True
    then show ?thesis using IH by (auto simp: admitted_snoc)
  next
    case False
    then have win: "in_window t (snd c)" and ip: "fst c = ip"
      and room: "length (recentRequests (snd c) (fst (run_checks cs)) ip)
                   < MAX_REQUESTS_PER_WINDOW"
      by (auto simp: window_full_def)
    have old: "\<forall>a\<in>set (admitted cs ip). a \<le> snd c"
      using le admitted_is_call by fastforce
    have "filter (in_window t) (admitted cs ip)
        = filter (in_window t) (filter (in_window (snd c)) (admitted cs ip))"
      using old win by (auto simp: in_window_def intro: filter_cong)
    then have "length (filter (in_window t) (admitted cs ip))
        \<le> length (filter (in_window (snd c)) (admitted cs ip))"
      by (metis length_filter_le)
    also have "\<dots> < MAX_REQUESTS_PER_WINDOW"
      using room recent_in_window [OF srt le, of ip] by simp
    finally show ?thesis using False by (simp add: admitted_snoc)
  qed
qed

lemma stored_bound:
  "length (userRequests (fst (run_checks cs)) ip) \<le> MAX_REQUESTS_PER_WINDOW"
proof (induction cs rule: rev_induct)
  case Nil
  then show ?case by (simp add: run_checks_Nil userRequests_def)
next
  case (snoc c cs)
  then show ?case
    by (auto simp: run_checks_snoc userRequests_step window_full_def)
qed

text \<open>
  C1, as the code has it. For every client, every map and every instant,
  \<open>checkRateLimit\<close> keeps of the client's stored instants (none if the client is unseen)
  those with \<open>now - entry < 60000\<close>, returns false and the map untouched if it kept 30 or
  more, and otherwise stores the kept instants followed by \<open>now\<close> and returns true. In a
  run of checks from the empty map whose clock never goes back, the admitted instants of
  a client in the trailing window of any instant \<open>t\<close> (those \<open>a\<close> with \<open>a \<le> t\<close> and
  \<open>t - a < 60000\<close>) number at most 30, and the next check admits the client exactly when
  fewer than 30 of its admitted instants lie in the window of \<open>now\<close>.
\<close>

theorem checkRateLimit_sliding_window:
  assumes "sorted (map snd cs)" and "\<forall>c\<in>set cs. snd c \<le> now"
  shows "checkRateLimit now rl ip =
           (let kept = filter (\<lambda>entry. now - entry < 60000)
                         (case rl ip of None \<Rightarrow> [] | Some ts \<Rightarrow> ts)
            in if length kept \<ge> 30 then (False, rl) else (True, rl(ip \<mapsto> kept @ [now])))
         \<and> length (filter (\<lambda>a. a \<le> t \<and> t - a < 60000) (admitted cs ip)) \<le> 30
         \<and> (fst (checkRateLimit now (fst (run_checks cs)) ip) \<longleftrightarrow>
              length (filter (\<lambda>a. a \<le> now \<and> now - a < 60000) (admitted cs ip)) < 30)"
proof (intro conjI)
  show "checkRateLimit now rl ip =
           (let kept = filter (\<lambda>entry. now - entry < 60000)
                         (case rl ip of None \<Rightarrow> [] | Some ts \<Rightarrow> ts)
            in if length kept \<ge> 30 then (False, rl) else (True, rl(ip \<mapsto> kept @ [now])))"
    by (simp add: checkRateLimit_def recentRequests_def userRequests_def Let_def
        RATE_LIMIT_WINDOW_def MAX_REQUESTS_PER_WINDOW_def)
  show "length (filter (\<lambda>a. a \<le> t \<and> t - a < 60000) (admitted cs ip)) \<le> 30"
    using window_bound [OF assms(1), of t ip]
    by (simp add: in_window_def [abs_def] RATE_LIMIT_WINDOW_def MAX_REQUESTS_PER_WINDOW_def)
  show "fst (checkRateLimit now (fst (run_checks cs)) ip) \<longleftrightarrow>
          length (filter (\<lambda>a. a \<le> now \<and> now - a < 60000) (admitted cs ip)) < 30"
    using recent_in_window [OF assms, of ip]
    by (auto simp: checkRateLimit_def in_window_def [abs_def] RATE_LIMIT_WINDOW_def
        MAX_REQUESTS_PER_WINDOW_def)
qed

lemma thirty_calls_admitted:
  "admitted thirty_calls (ascii ''203.0.113.7'') = map (\<lambda>i. 1000 * int i) [0..<30]"
  by code_simp

text \<open>
  After thirty calls at 0 s to 29 s, all admitted, the call at 30 s is refused and the
  call at 61 s is admitted.
\<close>

theorem checkRateLimit_sliding_window_witness:
  "sorted (map snd thirty_calls) \<and> list_all (\<lambda>c. snd c \<le> 30000) thirty_calls
   \<and> list_all (\<lambda>c. snd c \<le> 61000) thirty_calls
   \<and> length (filter (\<lambda>a. a \<le> 30000 \<and> 30000 - a < 60000)
         (admitted thirty_calls (ascii ''203.0.113.7''))) \<le> 30
   \<and> \<not> fst (checkRateLimit 30000 (fst (run_checks thirty_calls)) (ascii ''203.0.113.7''))
   \<and> fst (checkRateLimit 61000 (fst (run_checks thirty_calls)) (ascii ''203.0.113.7''))"
proof -
  have srt: "sorted (map snd thirty_calls)"
    by code_simp
  have le30: "\<forall>c\<in>set thirty_calls. snd c \<le> 30000"
    by code_simp
  have le61: "\<forall>c\<in>set thirty_calls. snd c \<le> 61000"
    by code_simp
  have n30: "\<not> length (filter (\<lambda>a. a \<le> 30000 \<and> 30000 - a < 60000)
      (admitted thirty_calls (ascii ''203.0.113.7''))) < 30"
    unfolding thirty_calls_admitted by code_simp
  have n61: "length (filter (\<lambda>a. a \<le> 61000 \<and> 61000 - a < 60000)
      (admitted thirty_calls (ascii ''203.0.113.7''))) < 30"
    unfolding thirty_calls_admitted by code_simp
  from checkRateLimit_sliding_window [OF srt le30, of Map.empty "ascii ''203.0.113.7''" 30000]
    checkRateLimit_sliding_window [OF srt le61, of Map.empty "ascii ''203.0.113.7''" 61000]
    srt le30 le61 n30 n61
  show ?thesis unfolding list_all_iff by blast
qed

text \<open>
  C1 as stated, for every instant, fails: when the clock goes back, the limiter admits
  more than 30 requests in one window. After thirty calls at 0, the call at 60000 prunes
  them all, so the call at 59999 is admitted too, and the window that ends at 59999 holds
  31 admitted instants.
\<close>

theorem clock_back_thirty_one:
  "length (filter (\<lambda>a. a \<le> 59999 \<and> 59999 - a < 60000)
     (admitted clock_back_calls (ascii ''203.0.113.7''))) = 31"
  by code_simp

text \<open>
  C8. When \<open>checkRateLimit\<close> returns false, the map it leaves is the map it found: the
  array of the refused client and of every other client is as before, so neither the
  refused request nor the pruning is written.
\<close>

theorem rejected_leaves_store:
  "\<not> fst (checkRateLimit now rl ip) \<Longrightarrow> snd (checkRateLimit now rl ip) = rl"
  by (simp add: checkRateLimit_def split: if_splits)

theorem rejected_leaves_store_witness:
  "\<not> fst (checkRateLimit 60004 full_store (ascii ''203.0.113.7''))
   \<and> snd (checkRateLimit 60004 full_store (ascii ''203.0.113.7'')) = full_store"
proof -
  have no: "\<not> fst (checkRateLimit 60004 full_store (ascii ''203.0.113.7''))"
    by code_simp
  from no rejected_leaves_store [OF no] show ?thesis by simp
qed

text \<open>
  C9. From the empty map, after any sequence of checks, with any clients and any instants
  (non-decreasing or not), the stored array of every client has at most 30 entries; and a
  check either leaves the map as it is, or stores for its client fewer than 30 kept
  instants with \<open>now\<close> appended.
\<close>

theorem stored_length_bounded:
  "length (userRequests (fst (run_checks cs)) ip) \<le> 30
   \<and> (snd (checkRateLimit now rl ip) = rl
      \<or> snd (checkRateLimit now rl ip) = rl(ip \<mapsto> recentRequests now rl ip @ [now])
        \<and> length (recentRequests now rl ip) < 30)"
  using stored_bound [of cs ip]
  by (simp add: checkRateLimit_def MAX_REQUESTS_PER_WINDOW_def)

section \<open>Properties of the serialiser\<close>

text \<open>The four hexadecimal digits of an escape give the code unit back.\<close>

lemma nibble_mask: "(0xF :: 16 word) = mask 4"
  by (simp add: mask_eq_exp_minus_1)

lemma nibble_less: "(x :: 16 word) AND 0xF < 16"
proof -
  have "x AND mask 4 < 2 ^ 4" by (rule and_mask_less') simp
  then show ?thesis by (simp add: nibble_mask)
qed

lemma nibbles: "push_bit 12 (drop_bit 12 c AND 0xF) OR push_bit 8 (drop_bit 8 c AND 0xF)
    OR push_bit 4 (drop_bit 4 c AND 0xF) OR (c AND 0xF) = (c :: 16 word)"
  unfolding nibble_mask
proof (rule bit_eqI)
  fix n
  assume "possible_bit TYPE(16 word) n"
  then have n: "n < 16" by (simp add: possible_bit_def)
  consider "n < 4" | "4 \<le> n" "n < 8" | "8 \<le> n" "n < 12" | "12 \<le> n" "n < 16"
    using n by linarith
  then show "bit (push_bit 12 (drop_bit 12 c AND mask 4) OR push_bit 8 (drop_bit 8 c AND mask 4)
      OR push_bit 4 (drop_bit 4 c AND mask 4) OR (c AND mask 4)) n = bit c n"
    by cases
      (auto simp: bit_or_iff bit_push_bit_iff bit_and_iff bit_drop_bit_eq bit_mask_iff)
qed

lemma hex_digits: "\<forall>n\<in>set [0..<16]. unhex (hex_digit (of_nat n)) = Some (of_nat n)"
  by code_simp

lemma hex_digit_less:
  assumes "d < 16"
  shows "unhex (hex_digit d) = Some d"
proof -
  from assms have "unat d < 16" by (simp add: word_less_nat_alt)
  then have "unat d \<in> set [0..<16]" by simp
  with hex_digits have "unhex (hex_digit (of_nat (unat d))) = Some (of_nat (unat d))"
    by blast
  then show ?thesis by simp
qed

lemma read_hex4_nibbles:
  "read_hex4 (hex_digit (drop_bit 12 c AND 0xF)) (hex_digit (drop_bit 8 c AND 0xF))
     (hex_digit (drop_bit 4 c AND 0xF)) (hex_digit (c AND 0xF)) = Some c"
  by (simp only: read_hex4_def hex_digit_less [OF nibble_less] prod.case option.case nibbles)

text \<open>Reading what \<open>QuoteJSONString\<close> wrote gives the string back.\<close>

lemma read_units_escape:
  "read_units (unicode_escape c @ inp) = cons_unit c (read_units inp)"
  by (simp add: unicode_escape_def read_hex4_nibbles)

lemma read_units_quote_unit:
  "read_units (quote_unit c @ inp) = cons_unit c (read_units inp)"
  by (simp add: quote_unit_def read_units_escape unescape_def)

lemma surrogate_raw:
  "is_high_surrogate c \<or> is_low_surrogate c \<Longrightarrow> c \<noteq> 0x22 \<and> c \<noteq> 0x5C"
  by (auto simp: is_high_surrogate_def is_low_surrogate_def)

lemma read_units_quote_units:
  "read_units (quote_units s @ 0x22 # rest) = Some (s, rest)"
proof (induction s rule: quote_units.induct)
  case 1
  show ?case by simp
next
  case (2 c cs)
  show ?case
  proof (cases "is_high_surrogate c")
    case True
    note high = this
    show ?thesis
    proof (cases cs)
      case Nil
      with high show ?thesis by (simp add: read_units_escape cons_unit_def)
    next
      case (Cons d ds)
      show ?thesis
      proof (cases "is_low_surrogate d")
        case True
        with high Cons 2(1) [OF high Cons True] surrogate_raw [of c] surrogate_raw [of d]
        show ?thesis by (simp add: cons_unit_def)
      next
        case False
        with high Cons 2(2) [OF high Cons False]
        show ?thesis by (simp add: read_units_escape cons_unit_def del: read_units.simps)
      qed
    qed
  next
    case False
    note not_high = this
    show ?thesis
    proof (cases "is_low_surrogate c")
      case True
      with not_high 2(3) [OF not_high True]
      show ?thesis by (simp add: read_units_escape cons_unit_def del: read_units.simps)
    next
      case False
      with not_high 2(4) [OF not_high False]
      show ?thesis by (simp add: read_units_quote_unit cons_unit_def del: read_units.simps)
    qed
  qed
qed

text \<open>How the text of a value begins.\<close>

lemma value_head:
  assumes "\<forall>q\<in>set (numbers v). reads_number ts rn q"
  shows "\<exists>c cs. json_text ts v = c # cs \<and> c \<noteq> 0x5D \<and> c \<noteq> 0x7D"
proof (cases v)
  case (JNum n)
  with assms show ?thesis
    by (cases n) (auto simp: reads_number_def ascii_def)
qed (auto simp: ascii_def QuoteJSONString_def)

lemma elements_head:
  assumes "xs \<noteq> []" and "\<forall>q\<in>set (numbers_elements xs). reads_number ts rn q"
  shows "\<exists>c cs. elements_text ts xs = c # cs \<and> c \<noteq> 0x5D"
proof -
  from assms(1) obtain x ys where xs: "xs = x # ys" by (cases xs) auto
  with assms(2) have "\<forall>q\<in>set (numbers x). reads_number ts rn q" by simp
  from value_head [OF this] obtain c cs where "json_text ts x = c # cs" "c \<noteq> 0x5D"
    by blast
  with xs show ?thesis by (cases ys) auto
qed

lemma members_head:
  assumes "kvs \<noteq> []"
  shows "\<exists>cs. members_text ts kvs = 0x22 # cs"
proof -
  from assms obtain k v ms where "kvs = (k, v) # ms" by (cases kvs) auto
  then show ?thesis by (cases ms) (auto simp: QuoteJSONString_def)
qed

text \<open>
  Reading the text of a document back, by induction over the serialiser, with fuel that
  covers the length of the text.
\<close>

lemma read_back:
  fixes rn :: "js_string \<Rightarrow> (rat \<times> js_string) option"
  shows "(\<forall>q\<in>set (numbers v). reads_number ts rn q) \<Longrightarrow> length (json_text ts v) \<le> n \<Longrightarrow>
         delimited rest \<Longrightarrow> read_value rn n (json_text ts v @ rest) = Some (nullify v, rest)"
    and "xs \<noteq> [] \<Longrightarrow> (\<forall>q\<in>set (numbers_elements xs). reads_number ts rn q) \<Longrightarrow>
         length (elements_text ts xs) < n \<Longrightarrow>
         read_elements rn n (elements_text ts xs @ 0x5D # rest) = Some (nullify_elements xs, rest)"
    and "kvs \<noteq> [] \<Longrightarrow> (\<forall>q\<in>set (numbers_members kvs). reads_number ts rn q) \<Longrightarrow>
         length (members_text ts kvs) < n \<Longrightarrow>
         read_members rn n (members_text ts kvs @ 0x7D # rest) = Some (nullify_members kvs, rest)"
proof (induction ts v and ts xs and ts kvs arbitrary: n rest and n rest and n rest
    rule: json_text_elements_text_members_text.induct)
  case (1 ts)
  then obtain m where "n = Suc m" by (cases n) (auto simp: ascii_def)
  then show ?case by (simp add: ascii_def)
next
  case (2 ts b)
  then obtain m where "n = Suc m" by (cases n) (auto simp: ascii_def split: if_splits)
  then show ?case by (simp add: ascii_def)
next
  case (3 ts num)
  show ?case
  proof (cases num)
    case (Finite q)
    with 3 have ok: "reads_number ts rn q" by simp
    then obtain c cs where shape: "ts q = c # cs"
      and c: "c \<notin> {0x22, 0x5B, 0x5D, 0x7B, 0x7D, 0x6E, 0x74, 0x66}"
      by (auto simp: reads_number_def)
    from ok 3(3) have rn: "rn (ts q @ rest) = Some (q, rest)"
      by (simp add: reads_number_def)
    from 3(2) Finite shape obtain m where "n = Suc m" by (cases n) auto
    with Finite shape c rn show ?thesis by (simp add: ascii_def)
  next
    case PosInfinity
    with 3 obtain m where "n = Suc m" by (cases n) (auto simp: ascii_def)
    with PosInfinity show ?thesis by (simp add: ascii_def)
  next
    case NegInfinity
    with 3 obtain m where "n = Suc m" by (cases n) (auto simp: ascii_def)
    with NegInfinity show ?thesis by (simp add: ascii_def)
  qed
next
  case (4 ts s)
  then obtain m where "n = Suc m" by (cases n) (auto simp: QuoteJSONString_def)
  then show ?case by (simp add: QuoteJSONString_def read_units_quote_units)
next
  case (5 ts xs)
  from 5(3) obtain m where n: "n = Suc m" by (cases n) (auto simp: ascii_def)
  show ?case
  proof (cases "xs = []")
    case True
    with n show ?thesis by (simp add: ascii_def)
  next
    case False
    from 5(2) have nums: "\<forall>q\<in>set (numbers_elements xs). reads_number ts rn q" by simp
    from elements_head [OF False nums] obtain c cs
      where head: "elements_text ts xs = c # cs" "c \<noteq> 0x5D" by blast
    from 5(3) n have "length (elements_text ts xs) < m" by (simp add: ascii_def)
    from 5(1) [OF False nums this, of rest]
    have "read_elements rn m (elements_text ts xs @ 0x5D # rest) = Some (nullify_elements xs, rest)" .
    with n head show ?thesis by (simp add: ascii_def)
  qed
next
  case (6 ts kvs)
  from 6(3) obtain m where n: "n = Suc m" by (cases n) (auto simp: ascii_def)
  show ?case
  proof (cases "kvs = []")
    case True
    with n show ?thesis by (simp add: ascii_def)
  next
    case False
    from 6(2) have nums: "\<forall>q\<in>set (numbers_members kvs). reads_number ts rn q" by simp
    from members_head [OF False] obtain cs
      where head: "members_text ts kvs = 0x22 # cs" by blast
    from 6(3) n have "length (members_text ts kvs) < m" by (simp add: ascii_def)
    from 6(1) [OF False nums this, of rest]
    have "read_members rn m (members_text ts kvs @ 0x7D # rest) = Some (nullify_members kvs, rest)" .
    with n head show ?thesis by (simp add: ascii_def)
  qed
next
  case (7 ts)
  then show ?case by simp
next
  case (8 ts x)
  from 8(4) obtain m where n: "n = Suc m" by (cases n) auto
  from 8(3) have nums: "\<forall>q\<in>set (numbers x). reads_number ts rn q" by simp
  from 8(4) n have "length (json_text ts x) \<le> m" by simp
  from 8(1) [OF nums this, of "0x5D # rest"]
  have "read_value rn m (json_text ts x @ 0x5D # rest) = Some (nullify x, 0x5D # rest)"
    by (simp add: delimited_def)
  with n show ?case by simp
next
  case (9 ts x y ys)
  from 9(5) obtain m where n: "n = Suc m" by (cases n) auto
  from 9(4) have nums: "\<forall>q\<in>set (numbers x). reads_number ts rn q"
    and nums': "\<forall>q\<in>set (numbers_elements (y # ys)). reads_number ts rn q" by simp_all
  from 9(5) n have "length (json_text ts x) \<le> m"
    and len: "length (elements_text ts (y # ys)) < m" by (simp_all add: ascii_def)
  from 9(1) [OF nums this(1), of "0x2C # elements_text ts (y # ys) @ 0x5D # rest"]
  have "read_value rn m (json_text ts x @ 0x2C # elements_text ts (y # ys) @ 0x5D # rest)
      = Some (nullify x, 0x2C # elements_text ts (y # ys) @ 0x5D # rest)"
    by (simp add: delimited_def)
  moreover from 9(2) [OF _ nums' len, of rest]
  have "read_elements rn m (elements_text ts (y # ys) @ 0x5D # rest)
      = Some (nullify_elements (y # ys), rest)" by simp
  ultimately show ?case using n by (simp add: ascii_def)
next
  case (10 ts)
  then show ?case by simp
next
  case (11 ts k v)
  from 11(4) obtain m where n: "n = Suc m" by (cases n) auto
  from 11(3) have nums: "\<forall>q\<in>set (numbers v). reads_number ts rn q" by simp
  from 11(4) n have "length (json_text ts v) \<le> m" by (simp add: ascii_def)
  from 11(1) [OF nums this, of "0x7D # rest"]
  have "read_value rn m (json_text ts v @ 0x7D # rest) = Some (nullify v, 0x7D # rest)"
    by (simp add: delimited_def)
  with n show ?case
    by (simp add: QuoteJSONString_def read_units_quote_units ascii_def)
next
  case (12 ts k v kv ms)
  from 12(5) obtain m where n: "n = Suc m" by (cases n) auto
  from 12(4) have nums: "\<forall>q\<in>set (numbers v). reads_number ts rn q"
    and nums': "\<forall>q\<in>set (numbers_members (kv # ms)). reads_number ts rn q" by simp_all
  from 12(5) n have "length (json_text ts v) \<le> m"
    and len: "length (members_text ts (kv # ms)) < m" by (simp_all add: ascii_def)
  from 12(1) [OF nums this(1), of "0x2C # members_text ts (kv # ms) @ 0x7D # rest"]
  have "read_value rn m (json_text ts v @ 0x2C # members_text ts (kv # ms) @ 0x7D # rest)
      = Some (nullify v, 0x2C # members_text ts (kv # ms) @ 0x7D # rest)"
    by (simp add: delimited_def)
  moreover from 12(2) [OF _ nums' len, of rest]
  have "read_members rn m (members_text ts (kv # ms) @ 0x7D # rest)
      = Some (nullify_members (kv # ms), rest)" by simp
  ultimately show ?case using n
    by (simp add: QuoteJSONString_def read_units_quote_units ascii_def)
qed

lemma read_json_text:
  assumes "\<forall>q\<in>set (numbers v). reads_number ts rn q"
  shows "read_json rn (json_text ts v) = Some (nullify v)"
  using read_back(1) [OF assms, of "length (json_text ts v)" "[]"]
  by (simp add: read_json_def delimited_def)

section \<open>Properties of the validator\<close>

lemma typeof_object:
  "typeof v = ascii ''object'' \<longleftrightarrow> v = JNull \<or> (\<exists>xs. v = JArr xs) \<or> (\<exists>kvs. v = JObj kvs)"
  by (cases v) (simp_all add: ascii_def)

text \<open>
  \<open>validateRequest\<close> accepts exactly the objects whose \<open>contents\<close> is an array, that
  \<open>JSON.stringify\<close> can serialise, and whose serialisation is short enough. An array at
  the top level passes the first test (\<open>typeof [] === 'object'\<close>) and fails the second,
  having no \<open>contents\<close>.
\<close>

lemma validateRequest_iff:
  "validateRequest limit ts v = Inr x \<longleftrightarrow>
     x \<and> is_object v \<and> contents_is_array v \<and> nesting v \<le> limit
     \<and> length (json_text ts v) \<le> MAX_PAYLOAD_SIZE"
proof (cases v)
  case (JObj kvs)
  show ?thesis
  proof (cases "map_of kvs (ascii ''contents'')")
    case None
    with JObj show ?thesis by (simp add: validateRequest_def)
  next
    case (Some c)
    with JObj show ?thesis
      by (cases c) (auto simp: validateRequest_def JSON_stringify_def)
  qed
qed (simp_all add: validateRequest_def typeof_object)

lemma validateRequest_valid:
  "is_object v \<Longrightarrow> contents_is_array v \<Longrightarrow> nesting v \<le> limit \<Longrightarrow>
   length (json_text ts v) \<le> MAX_PAYLOAD_SIZE \<Longrightarrow> validateRequest limit ts v = Inr True"
  by (simp add: validateRequest_iff)

lemma validateRequest_deep:
  assumes "is_object v" and "contents_is_array v" and "limit < nesting v"
  shows "validateRequest limit ts v = Inl RangeError"
proof (cases v)
  case (JObj kvs)
  show ?thesis
  proof (cases "map_of kvs (ascii ''contents'')")
    case None
    with JObj assms(2) show ?thesis by simp
  next
    case (Some c)
    with JObj assms(2,3) show ?thesis
      by (cases c) (auto simp: validateRequest_def JSON_stringify_def)
  qed
qed (use assms(1) in simp_all)

lemma contents_empty_valid:
  "2 \<le> limit \<Longrightarrow> validateRequest limit ts (JObj [(ascii ''contents'', JArr [])]) = Inr True"
  by (simp add: validateRequest_iff MAX_PAYLOAD_SIZE_def QuoteJSONString_def ascii_def
      quote_unit_def is_high_surrogate_def is_low_surrogate_def)

lemma parse_and_validate_Inr:
  "parse_and_validate e b = Inr v \<longleftrightarrow>
     JSON_parse e (ToString b) = Some v \<and> is_object v \<and> contents_is_array v
     \<and> nesting v \<le> stack_limit e
     \<and> length (json_text (Number_toString e) v) \<le> MAX_PAYLOAD_SIZE"
proof (cases "JSON_parse e (ToString b)")
  case None
  then show ?thesis by (simp add: parse_and_validate_def)
next
  case (Some w)
  show ?thesis
  proof (cases "validateRequest (stack_limit e) (Number_toString e) w")
    case (Inl err)
    with Some validateRequest_valid [of w "stack_limit e" "Number_toString e"] show ?thesis
      by (auto simp: parse_and_validate_def)
  next
    case (Inr x)
    with Some show ?thesis
      using validateRequest_iff [of "stack_limit e" "Number_toString e" w x]
      by (auto simp: parse_and_validate_def)
  qed
qed

lemma parse_and_validate_spec:
  "(\<exists>err. parse_and_validate e b = Inl err) \<longleftrightarrow>
     spec_invalid_request e (ToString b) \<or> serialisation_throws e (ToString b)"
proof -
  have "(\<exists>err. parse_and_validate e b = Inl err) \<longleftrightarrow> \<not> (\<exists>v. parse_and_validate e b = Inr v)"
    by (cases "parse_and_validate e b") simp_all
  then show ?thesis
    by (auto simp: parse_and_validate_Inr spec_invalid_request_def serialisation_throws_def
        MAX_PAYLOAD_SIZE_def split: option.splits)
qed

text \<open>
  The error bodies are what \<open>JSON.stringify\<close> returns on every engine that serialises one
  level.
\<close>

lemma error_body_stringify:
  "1 \<le> stack_limit e \<Longrightarrow>
   JSON_stringify (stack_limit e) (Number_toString e) (JObj [(ascii ''error'', JStr message)]) =
     Inr (error_body e message)"
  by (simp add: JSON_stringify_def error_body_def)

text \<open>A body that passed validation is serialised again without a throw.\<close>

lemma valid_stringify:
  "parse_and_validate e b = Inr v \<Longrightarrow>
   JSON_stringify (stack_limit e) (Number_toString e) v = Inr (json_text (Number_toString e) v)"
  by (simp add: parse_and_validate_Inr JSON_stringify_def)

section \<open>Properties of the handler\<close>

text \<open>The handler on an event that has a headers object, with the verdict of the limiter named.\<close>

lemma handler_unfold:
  "event.headers ev = Value hs \<Longrightarrow>
   handler e rl ev =
     (let allowed = fst (checkRateLimit (Date_now e) rl (clientIp hs));
          rl' = snd (checkRateLimit (Date_now e) rl (clientIp hs))
      in if \<not> allowed then
           \<lparr>returned = Inr
              \<lparr>statusCode = 429,
               headers = [content_type_json, (ascii ''Retry-After'', ascii ''60'')],
               body = error_body e msg_too_many_requests\<rparr>,
            rateLimit = rl', effects = []\<rparr>
         else if httpMethod ev \<noteq> Value (ascii ''POST'') then
           \<lparr>returned = Inr
              \<lparr>statusCode = 405,
               headers = [content_type_json, (ascii ''Allow'', ascii ''POST'')],
               body = error_body e (ascii ''Method not allowed'')\<rparr>,
            rateLimit = rl', effects = []\<rparr>
         else
           (case parse_and_validate e (event.body ev) of
              Inl err \<Rightarrow>
                \<lparr>returned = Inr
                   \<lparr>statusCode = 400, headers = [content_type_json],
                    body = error_body e msg_invalid_request\<rparr>,
                 rateLimit = rl', effects = []\<rparr>
            | Inr requestBody \<Rightarrow>
                (case GEMINI_API_KEY e of
                   None \<Rightarrow> misconfigured e rl'
                 | Some apiKey \<Rightarrow>
                     if apiKey = [] then misconfigured e rl'
                     else \<lparr>returned = Inr (fst (call_upstream e apiKey requestBody)),
                            rateLimit = rl',
                            effects = snd (call_upstream e apiKey requestBody)\<rparr>)))"
  by (auto simp: handler_def Let_def split: prod.split sum.split option.split)

lemma call_upstream_status:
  "statusCode (fst (call_upstream e k b)) \<in> {200, 429, 500}"
  by (simp add: call_upstream_def Let_def split: fetch_result.split sum.split)

lemma call_upstream_content_type:
  "hd (headers (fst (call_upstream e k b))) = content_type_json"
  by (simp add: call_upstream_def Let_def split: fetch_result.split sum.split)

text \<open>
  The upstream call for a body that \<open>JSON.stringify\<close> serialises, as every validated body
  is: the call goes out once, and the answer decides.
\<close>

lemma call_upstream_serialised:
  assumes "JSON_stringify (stack_limit e) (Number_toString e) b =
             Inr (json_text (Number_toString e) b)"
  shows "call_upstream e k b =
     (case fetch e (upstream_request e k b) of
        Rejects err \<Rightarrow>
          (\<lparr>statusCode = 500, headers = [content_type_json],
            body = error_body e msg_server_error\<rparr>,
           [Fetch (upstream_request e k b),
            ConsoleError [LogText (ascii ''Unexpected error:''), LogError err]])
      | Resolves status j \<Rightarrow>
          if \<not> ok status then
            (\<lparr>statusCode = (if status = 429 then 429 else 500), headers = [content_type_json],
              body = error_body e
                (if status = 429 then msg_upstream_rate_limit else msg_upstream_failed)\<rparr>,
             [Fetch (upstream_request e k b),
              ConsoleError [LogText (ascii ''Gemini API Error:''), LogNumber status,
                            LogJson (case j of Inl _ \<Rightarrow> JObj [] | Inr d \<Rightarrow> d)]])
          else
            (case j of
               Inl err \<Rightarrow>
                 (\<lparr>statusCode = 500, headers = [content_type_json],
                   body = error_body e msg_server_error\<rparr>,
                  [Fetch (upstream_request e k b),
                   ConsoleError [LogText (ascii ''Unexpected error:''), LogError err]])
             | Inr data \<Rightarrow>
                 if nesting data \<le> stack_limit e then
                   (\<lparr>statusCode = 200,
                     headers = [content_type_json,
                       (ascii ''Cache-Control'', ascii ''no-store, no-cache, must-revalidate''),
                       (ascii ''X-Content-Type-Options'', ascii ''nosniff'')],
                     body = json_text (Number_toString e) data\<rparr>,
                    [Fetch (upstream_request e k b)])
                 else
                   (\<lparr>statusCode = 500, headers = [content_type_json],
                     body = error_body e msg_server_error\<rparr>,
                    [Fetch (upstream_request e k b),
                     ConsoleError [LogText (ascii ''Unexpected error:''),
                                   LogError RangeError]])))"
  using assms
  by (simp add: call_upstream_def upstream_request_def Let_def JSON_stringify_def
      split: fetch_result.split sum.split)

lemma call_upstream_fetch:
  assumes "JSON_stringify (stack_limit e) (Number_toString e) b =
             Inr (json_text (Number_toString e) b)"
  shows "filter is_fetch (snd (call_upstream e k b)) = [Fetch (upstream_request e k b)]"
  by (simp add: call_upstream_serialised [OF assms] split: fetch_result.split sum.split)

lemma handler_forwards:
  assumes "event.headers ev = Value hs"
    and "fst (checkRateLimit (Date_now e) rl (clientIp hs))"
    and "httpMethod ev = Value (ascii ''POST'')"
    and "parse_and_validate e (event.body ev) = Inr b"
    and "GEMINI_API_KEY e = Some k" and "k \<noteq> []"
  shows "handler e rl ev =
     \<lparr>returned = Inr (fst (call_upstream e k b)),
      rateLimit = snd (checkRateLimit (Date_now e) rl (clientIp hs)),
      effects = snd (call_upstream e k b)\<rparr>"
  using assms(2-) by (simp add: handler_unfold [OF assms(1)])

subsection \<open>The examples, evaluated\<close>

lemma sample_env_fields:
  "Date_now (sample_env key answer) = 60004"
  "GEMINI_API_KEY (sample_env key answer) = key"
  "fetch (sample_env key answer) r = answer"
  "JSON_parse (sample_env key answer) = sample_parse"
  "stack_limit (sample_env key answer) = 4000"
  by (simp_all add: sample_env_def)

lemma sample_admitted: "fst (checkRateLimit 60004 Map.empty (clientIp sample_headers))"
  by code_simp

lemma sample_limited: "\<not> fst (checkRateLimit 60004 full_store (clientIp sample_headers))"
  by code_simp

lemma post_event_fields:
  "event.headers (post_event b) = Value sample_headers"
  "httpMethod (post_event b) = Value (ascii ''POST'')"
  "event.body (post_event b) = b"
  by (simp_all add: post_event_def)

lemma get_event_fields:
  "event.headers get_event = Value sample_headers"
  "httpMethod get_event \<noteq> Value (ascii ''POST'')"
  by (simp_all add: get_event_def ascii_def)

lemma sample_valid:
  "parse_and_validate (sample_env key answer) (Value text_contents_empty) =
     Inr (JObj [(ascii ''contents'', JArr [])])"
  by (simp add: parse_and_validate_def sample_env_def sample_parse_def contents_empty_valid)

lemma length_text_deep: "length text_deep = 9013"
  by (simp add: text_deep_def ascii_def)

lemma not_text_deep: "length t \<noteq> 9013 \<Longrightarrow> t \<noteq> text_deep"
  using length_text_deep by auto

lemma sample_not_json: "sample_parse text_not_json = None"
  by (simp add: sample_parse_def text_not_json_def text_contents_empty_def text_infinite_def
      not_text_deep ascii_def)

lemma sample_undefined: "sample_parse (ascii ''undefined'') = None"
  by (simp add: sample_parse_def text_contents_empty_def text_infinite_def not_text_deep
      ascii_def)

lemma sample_infinite: "sample_parse text_infinite = Some infinite_document"
  by (simp add: sample_parse_def text_contents_empty_def text_infinite_def ascii_def)

lemma sample_deep: "sample_parse text_deep = Some deep_document"
  using not_text_deep [of text_contents_empty] not_text_deep [of "ascii ''[]''"]
    not_text_deep [of "ascii ''null''"] not_text_deep [of text_infinite]
  by (simp add: sample_parse_def text_contents_empty_def text_infinite_def ascii_def)

lemma sample_invalid:
  "parse_and_validate (sample_env key answer) (Value text_not_json) = Inl SyntaxError"
  by (simp add: parse_and_validate_def sample_env_fields sample_not_json)

lemma secret_not_empty: "ascii ''secret'' \<noteq> []"
  by (simp add: ascii_def)

text \<open>The nested arrays: their depth, their text and its length.\<close>

lemma nesting_nest_array: "nesting (nest_array n) = Suc n"
  by (induction n) simp_all

lemma json_text_nest_array:
  "json_text ts (nest_array n) = replicate (Suc n) 0x5B @ replicate (Suc n) 0x5D"
  by (induction n) (simp_all add: ascii_def replicate_append_same)

lemma nest_array_is_array: "\<exists>xs. nest_array n = JArr xs"
  by (cases n) simp_all

lemma deep_document_shape:
  "is_object deep_document" "contents_is_array deep_document"
  "nesting deep_document = 4501"
  "json_text ts deep_document = text_deep"
  using nest_array_is_array [of 4499]
  by (auto simp: deep_document_def nesting_nest_array json_text_nest_array text_deep_def
      QuoteJSONString_def ascii_def quote_unit_def is_high_surrogate_def
      is_low_surrogate_def)

section \<open>The claims about the handler\<close>

text \<open>
  C2, as the code has it. For every event that carries a headers object (whatever its
  entries) and any body (missing, \<open>null\<close> or malformed included), the handler returns an
  envelope: its status is one of 200, 400, 405, 429 and 500 and its first header is
  \<open>Content-Type: application/json\<close>. An exception of parsing or validation becomes the
  400 response, and an exception of the upstream call, or of reading the body of a
  successful answer, becomes the generic 500 response.
\<close>

theorem handler_envelope:
  assumes "event.headers ev = Value hs"
  shows "(\<exists>r. returned (handler e rl ev) = Inr r
            \<and> statusCode r \<in> {200, 400, 405, 429, 500}
            \<and> hd (headers r) = content_type_json)
       \<and> (fst (checkRateLimit (Date_now e) rl (clientIp hs))
            \<and> httpMethod ev = Value (ascii ''POST'')
            \<and> parse_and_validate e (event.body ev) = Inl err \<longrightarrow>
          returned (handler e rl ev) =
            Inr \<lparr>statusCode = 400, headers = [content_type_json],
                 body = error_body e msg_invalid_request\<rparr>)
       \<and> (fst (checkRateLimit (Date_now e) rl (clientIp hs))
            \<and> httpMethod ev = Value (ascii ''POST'')
            \<and> parse_and_validate e (event.body ev) = Inr b
            \<and> GEMINI_API_KEY e = Some k \<and> k \<noteq> []
            \<and> (fetch e (upstream_request e k b) = Rejects err'
                \<or> (\<exists>status. ok status
                      \<and> fetch e (upstream_request e k b) = Resolves status (Inl err'))) \<longrightarrow>
          returned (handler e rl ev) =
            Inr \<lparr>statusCode = 500, headers = [content_type_json],
                 body = error_body e msg_server_error\<rparr>)"
proof (intro conjI impI)
  show "\<exists>r. returned (handler e rl ev) = Inr r
            \<and> statusCode r \<in> {200, 400, 405, 429, 500}
            \<and> hd (headers r) = content_type_json"
    using call_upstream_status [of e] call_upstream_content_type [of e]
    by (auto simp: handler_unfold [OF assms] Let_def misconfigured_def
        split: sum.split option.split)
next
  assume "fst (checkRateLimit (Date_now e) rl (clientIp hs))
            \<and> httpMethod ev = Value (ascii ''POST'')
            \<and> parse_and_validate e (event.body ev) = Inl err"
  then show "returned (handler e rl ev) =
            Inr \<lparr>statusCode = 400, headers = [content_type_json],
                 body = error_body e msg_invalid_request\<rparr>"
    by (simp add: handler_unfold [OF assms])
next
  assume a: "fst (checkRateLimit (Date_now e) rl (clientIp hs))
            \<and> httpMethod ev = Value (ascii ''POST'')
            \<and> parse_and_validate e (event.body ev) = Inr b
            \<and> GEMINI_API_KEY e = Some k \<and> k \<noteq> []
            \<and> (fetch e (upstream_request e k b) = Rejects err'
                \<or> (\<exists>status. ok status
                      \<and> fetch e (upstream_request e k b) = Resolves status (Inl err')))"
  then have "handler e rl ev =
     \<lparr>returned = Inr (fst (call_upstream e k b)),
      rateLimit = snd (checkRateLimit (Date_now e) rl (clientIp hs)),
      effects = snd (call_upstream e k b)\<rparr>"
    using handler_forwards [OF assms] by blast
  moreover from a have "fst (call_upstream e k b) =
      \<lparr>statusCode = 500, headers = [content_type_json], body = error_body e msg_server_error\<rparr>"
    using call_upstream_serialised [OF valid_stringify, of e "event.body ev" b k] by auto
  ultimately show "returned (handler e rl ev) =
            Inr \<lparr>statusCode = 500, headers = [content_type_json],
                 body = error_body e msg_server_error\<rparr>"
    by simp
qed

text \<open>
  A body that is not JSON is answered with 400, and an upstream call that fails with the
  generic 500.
\<close>

theorem handler_envelope_witness:
  "event.headers (post_event (Value text_not_json)) = Value sample_headers
   \<and> returned (handler (sample_env (Some (ascii ''secret'')) answer_foo_bar) Map.empty
        (post_event (Value text_not_json))) =
       Inr \<lparr>statusCode = 400, headers = [content_type_json],
            body = error_body (sample_env (Some (ascii ''secret'')) answer_foo_bar)
                     msg_invalid_request\<rparr>
   \<and> returned (handler (sample_env (Some (ascii ''secret'')) (Rejects TypeError)) Map.empty
        (post_event (Value text_contents_empty))) =
       Inr \<lparr>statusCode = 500, headers = [content_type_json],
            body = error_body (sample_env (Some (ascii ''secret'')) (Rejects TypeError))
                     msg_server_error\<rparr>"
proof -
  let ?e = "sample_env (Some (ascii ''secret'')) answer_foo_bar"
  let ?off = "sample_env (Some (ascii ''secret'')) (Rejects TypeError)"
  have h: "event.headers (post_event b) = Value sample_headers" for b
    by (simp add: post_event_fields)
  from handler_envelope [OF h, of ?e Map.empty "Value text_not_json" SyntaxError]
    handler_envelope [OF h, of ?off Map.empty "Value text_contents_empty" _ _
      "ascii ''secret''" TypeError]
  show ?thesis
    by (simp add: h sample_env_fields sample_admitted post_event_fields sample_invalid
        sample_valid secret_not_empty)
qed

text \<open>
  C2 as stated fails: on an event without a headers object the first statement of the
  handler throws, outside every \<open>try\<close>, and no envelope is returned.
\<close>

theorem headerless_event_throws:
  "returned (handler (sample_env (Some (ascii ''secret'')) answer_foo_bar) Map.empty
     headerless_event) = Inl TypeError"
  by (simp add: handler_def headerless_event_def)

text \<open>
  C3. The checks run in the order rate limit, method, parsing and validation, credential,
  upstream call, and the first that fails decides. A request of a client that the limiter
  refuses gets 429 with \<open>Retry-After: 60\<close> whatever its method; an admitted request whose
  method is not POST gets 405 with \<open>Allow: POST\<close> whatever its body; an admitted POST with
  an invalid body gets 400 whatever the credential; an admitted valid POST without a
  credential gets 500; in these four cases no call goes out. Only then is the upstream
  called.
\<close>

theorem check_order:
  assumes "event.headers ev = Value hs"
  shows "(\<not> fst (checkRateLimit (Date_now e) rl (clientIp hs)) \<longrightarrow>
            returned (handler e rl ev) =
              Inr \<lparr>statusCode = 429,
                   headers = [content_type_json, (ascii ''Retry-After'', ascii ''60'')],
                   body = error_body e msg_too_many_requests\<rparr>
            \<and> effects (handler e rl ev) = [])
       \<and> (fst (checkRateLimit (Date_now e) rl (clientIp hs))
            \<and> httpMethod ev \<noteq> Value (ascii ''POST'') \<longrightarrow>
            returned (handler e rl ev) =
              Inr \<lparr>statusCode = 405,
                   headers = [content_type_json, (ascii ''Allow'', ascii ''POST'')],
                   body = error_body e (ascii ''Method not allowed'')\<rparr>
            \<and> effects (handler e rl ev) = [])
       \<and> (fst (checkRateLimit (Date_now e) rl (clientIp hs))
            \<and> httpMethod ev = Value (ascii ''POST'')
            \<and> parse_and_validate e (event.body ev) = Inl err \<longrightarrow>
            returned (handler e rl ev) =
              Inr \<lparr>statusCode = 400, headers = [content_type_json],
                   body = error_body e msg_invalid_request\<rparr>
            \<and> effects (handler e rl ev) = [])
       \<and> (fst (checkRateLimit (Date_now e) rl (clientIp hs))
            \<and> httpMethod ev = Value (ascii ''POST'')
            \<and> parse_and_validate e (event.body ev) = Inr b
            \<and> (GEMINI_API_KEY e = None \<or> GEMINI_API_KEY e = Some []) \<longrightarrow>
            returned (handler e rl ev) =
              Inr \<lparr>statusCode = 500, headers = [content_type_json],
                   body = error_body e msg_server_config\<rparr>
            \<and> filter is_fetch (effects (handler e rl ev)) = [])
       \<and> (fst (checkRateLimit (Date_now e) rl (clientIp hs))
            \<and> httpMethod ev = Value (ascii ''POST'')
            \<and> parse_and_validate e (event.body ev) = Inr b
            \<and> GEMINI_API_KEY e = Some k \<and> k \<noteq> [] \<longrightarrow>
            filter is_fetch (effects (handler e rl ev)) = [Fetch (upstream_request e k b)])"
proof (intro conjI impI)
  assume "fst (checkRateLimit (Date_now e) rl (clientIp hs))
            \<and> httpMethod ev = Value (ascii ''POST'')
            \<and> parse_and_validate e (event.body ev) = Inr b
            \<and> GEMINI_API_KEY e = Some k \<and> k \<noteq> []"
  then show "filter is_fetch (effects (handler e rl ev)) = [Fetch (upstream_request e k b)]"
    using handler_forwards [OF assms, of e rl b k]
      call_upstream_fetch [OF valid_stringify, of e "event.body ev" b k] by simp
qed (auto simp: handler_unfold [OF assms] Let_def misconfigured_def)

text \<open>
  A GET of a client whose window is full gets 429; the same GET of a fresh client gets
  405; a POST that is not JSON gets 400 although no credential is configured.
\<close>

theorem check_order_witness:
  "event.headers get_event = Value sample_headers
   \<and> \<not> fst (checkRateLimit 60004 full_store (clientIp sample_headers))
   \<and> returned (handler (sample_env None answer_foo_bar) full_store get_event) =
       Inr \<lparr>statusCode = 429,
            headers = [content_type_json, (ascii ''Retry-After'', ascii ''60'')],
            body = error_body (sample_env None answer_foo_bar) msg_too_many_requests\<rparr>
   \<and> fst (checkRateLimit 60004 Map.empty (clientIp sample_headers))
   \<and> returned (handler (sample_env None answer_foo_bar) Map.empty get_event) =
       Inr \<lparr>statusCode = 405,
            headers = [content_type_json, (ascii ''Allow'', ascii ''POST'')],
            body = error_body (sample_env None answer_foo_bar) (ascii ''Method not allowed'')\<rparr>
   \<and> returned (handler (sample_env None answer_foo_bar) Map.empty
        (post_event (Value text_not_json))) =
       Inr \<lparr>statusCode = 400, headers = [content_type_json],
            body = error_body (sample_env None answer_foo_bar) msg_invalid_request\<rparr>
   \<and> returned (handler (sample_env None answer_foo_bar) Map.empty
        (post_event (Value text_contents_empty))) =
       Inr \<lparr>statusCode = 500, headers = [content_type_json],
            body = error_body (sample_env None answer_foo_bar) msg_server_config\<rparr>
   \<and> filter is_fetch (effects (handler (sample_env (Some (ascii ''secret'')) answer_foo_bar)
        Map.empty (post_event (Value text_contents_empty)))) =
       [Fetch (upstream_request (sample_env (Some (ascii ''secret'')) answer_foo_bar)
          (ascii ''secret'') (JObj [(ascii ''contents'', JArr [])]))]"
proof -
  let ?e = "sample_env None answer_foo_bar"
  let ?k = "sample_env (Some (ascii ''secret'')) answer_foo_bar"
  have g: "event.headers get_event = Value sample_headers"
    by (simp add: get_event_fields)
  have p: "event.headers (post_event b) = Value sample_headers" for b
    by (simp add: post_event_fields)
  from check_order [OF g, of ?e full_store] check_order [OF g, of ?e Map.empty]
    check_order [OF p, of ?e Map.empty "Value text_not_json" SyntaxError]
    check_order [OF p, of ?e Map.empty "Value text_contents_empty" _
      "JObj [(ascii ''contents'', JArr [])]"]
    check_order [OF p, of ?k Map.empty "Value text_contents_empty" _
      "JObj [(ascii ''contents'', JArr [])]" "ascii ''secret''"]
  show ?thesis
    by (simp add: g sample_env_fields sample_admitted sample_limited get_event_fields
        post_event_fields sample_invalid sample_valid secret_not_empty)
qed

text \<open>
  C4, as the code has it. For an admitted POST the handler answers 400, with the
  invalid-request message, exactly when the specification calls the body invalid (it does
  not parse, or the parsed value is not an object but null, a primitive or an array, or
  its \<open>contents\<close> is absent or not an array, or its serialisation has more than 100,000
  code units) or \<open>JSON.stringify\<close> throws on the parsed body, which is then nested deeper
  than the stack of the engine allows. A body that is not JSON gets that same envelope.
  The document \<^verbatim>\<open>{"contents": []}\<close> passes validation on every engine that serialises two
  nested levels.
\<close>

theorem invalid_request_400:
  assumes "event.headers ev = Value hs"
    and "fst (checkRateLimit (Date_now e) rl (clientIp hs))"
    and "httpMethod ev = Value (ascii ''POST'')"
  shows "((\<exists>r. returned (handler e rl ev) = Inr r \<and> statusCode r = 400)
            \<longleftrightarrow> spec_invalid_request e (ToString (event.body ev))
                \<or> serialisation_throws e (ToString (event.body ev)))
       \<and> (returned (handler e rl ev) =
             Inr \<lparr>statusCode = 400, headers = [content_type_json],
                  body = error_body e msg_invalid_request\<rparr>
            \<longleftrightarrow> spec_invalid_request e (ToString (event.body ev))
                \<or> serialisation_throws e (ToString (event.body ev)))
       \<and> (JSON_parse e (ToString (event.body ev)) = None \<longrightarrow>
            returned (handler e rl ev) =
              Inr \<lparr>statusCode = 400, headers = [content_type_json],
                   body = error_body e msg_invalid_request\<rparr>)
       \<and> (2 \<le> stack_limit e \<longrightarrow>
            validateRequest (stack_limit e) (Number_toString e)
              (JObj [(ascii ''contents'', JArr [])]) = Inr True)"
proof -
  let ?bad = "Inr \<lparr>statusCode = 400, headers = [content_type_json],
                   body = error_body e msg_invalid_request\<rparr> :: js_error + response"
  let ?refused = "spec_invalid_request e (ToString (event.body ev))
                \<or> serialisation_throws e (ToString (event.body ev))"
  have invalid: "returned (handler e rl ev) = ?bad" if ?refused
  proof -
    from that obtain err where "parse_and_validate e (event.body ev) = Inl err"
      using parse_and_validate_spec [of e "event.body ev"] by blast
    with assms(2,3) show ?thesis
      by (simp add: handler_unfold [OF assms(1)])
  qed
  have valid: "\<exists>r. returned (handler e rl ev) = Inr r \<and> statusCode r \<in> {200, 429, 500}"
    if "\<not> ?refused"
  proof -
    from that obtain b where "parse_and_validate e (event.body ev) = Inr b"
      using parse_and_validate_spec [of e "event.body ev"]
      by (cases "parse_and_validate e (event.body ev)") auto
    with assms(2,3) show ?thesis
      using call_upstream_status [of e]
      by (auto simp: handler_unfold [OF assms(1)] Let_def misconfigured_def
          split: option.split)
  qed
  have none: "spec_invalid_request e (ToString (event.body ev))"
    if "JSON_parse e (ToString (event.body ev)) = None"
    using that by (simp add: spec_invalid_request_def)
  show ?thesis
  proof (cases ?refused)
    case True
    with invalid none show ?thesis by (simp add: contents_empty_valid)
  next
    case False
    with valid none show ?thesis by (auto simp: contents_empty_valid)
  qed
qed

text \<open>
  The body \<^verbatim>\<open>{not json\<close>, a missing body and the body nested 4500 deep get 400; the body
  \<^verbatim>\<open>{"contents": []}\<close> does not, and passes validation.
\<close>

theorem invalid_request_400_witness:
  "fst (checkRateLimit 60004 Map.empty (clientIp sample_headers))
   \<and> spec_invalid_request (sample_env (Some (ascii ''secret'')) answer_foo_bar) text_not_json
   \<and> returned (handler (sample_env (Some (ascii ''secret'')) answer_foo_bar) Map.empty
        (post_event (Value text_not_json))) =
       Inr \<lparr>statusCode = 400, headers = [content_type_json],
            body = error_body (sample_env (Some (ascii ''secret'')) answer_foo_bar)
                     msg_invalid_request\<rparr>
   \<and> returned (handler (sample_env (Some (ascii ''secret'')) answer_foo_bar) Map.empty
        (post_event Undefined)) =
       Inr \<lparr>statusCode = 400, headers = [content_type_json],
            body = error_body (sample_env (Some (ascii ''secret'')) answer_foo_bar)
                     msg_invalid_request\<rparr>
   \<and> serialisation_throws (sample_env (Some (ascii ''secret'')) answer_foo_bar) text_deep
   \<and> (\<exists>r. returned (handler (sample_env (Some (ascii ''secret'')) answer_foo_bar) Map.empty
             (post_event (Value text_deep))) = Inr r \<and> statusCode r = 400)
   \<and> \<not> spec_invalid_request (sample_env (Some (ascii ''secret'')) answer_foo_bar)
         text_contents_empty
   \<and> \<not> serialisation_throws (sample_env (Some (ascii ''secret'')) answer_foo_bar)
         text_contents_empty
   \<and> returned (handler (sample_env (Some (ascii ''secret'')) answer_foo_bar) Map.empty
        (post_event (Value text_contents_empty))) \<noteq>
       Inr \<lparr>statusCode = 400, headers = [content_type_json],
            body = error_body (sample_env (Some (ascii ''secret'')) answer_foo_bar)
                     msg_invalid_request\<rparr>
   \<and> validateRequest 4000 (\<lambda>q. ascii ''0'') (JObj [(ascii ''contents'', JArr [])]) = Inr True"
proof -
  let ?e = "sample_env (Some (ascii ''secret'')) answer_foo_bar"
  have p: "event.headers (post_event b) = Value sample_headers" for b
    by (simp add: post_event_fields)
  have a: "fst (checkRateLimit (Date_now ?e) Map.empty (clientIp sample_headers))"
    by (simp add: sample_env_fields sample_admitted)
  have m: "httpMethod (post_event b) = Value (ascii ''POST'')" for b
    by (simp add: post_event_fields)
  have bad: "spec_invalid_request ?e text_not_json"
    by (simp add: spec_invalid_request_def sample_env_fields sample_not_json)
  have missing: "spec_invalid_request ?e (ascii ''undefined'')"
    by (simp add: spec_invalid_request_def sample_env_fields sample_undefined)
  have deep: "serialisation_throws ?e text_deep"
    by (simp add: serialisation_throws_def sample_env_fields sample_deep deep_document_shape)
  have good: "\<not> spec_invalid_request ?e text_contents_empty"
    "\<not> serialisation_throws ?e text_contents_empty"
    using parse_and_validate_spec [of ?e "Value text_contents_empty"]
    by (simp_all add: sample_valid)
  have two: "2 \<le> stack_limit ?e"
    by (simp add: sample_env_fields)
  from invalid_request_400 [OF p a m, of "Value text_not_json"]
    invalid_request_400 [OF p a m, of Undefined]
    invalid_request_400 [OF p a m, of "Value text_deep"]
    invalid_request_400 [OF p a m, of "Value text_contents_empty"]
    bad missing deep good two
  show ?thesis
    by (simp add: post_event_fields sample_admitted sample_env_def)
qed

text \<open>
  C4 as stated fails in its ``only if'': the body \<^verbatim>\<open>{"contents":[[...]]}\<close> of 9013 code
  units parses to an object whose \<open>contents\<close> is an array, nested 4500 deep, so the
  specification does not call it invalid; \<open>JSON.stringify\<close> throws on it in
  \<open>validateRequest\<close>, and the handler answers 400.
\<close>

theorem deep_body_400:
  "\<not> spec_invalid_request (sample_env (Some (ascii ''secret'')) answer_foo_bar) text_deep
   \<and> returned (handler (sample_env (Some (ascii ''secret'')) answer_foo_bar) Map.empty
        (post_event (Value text_deep))) =
       Inr \<lparr>statusCode = 400, headers = [content_type_json],
            body = error_body (sample_env (Some (ascii ''secret'')) answer_foo_bar)
                     msg_invalid_request\<rparr>"
proof -
  let ?e = "sample_env (Some (ascii ''secret'')) answer_foo_bar"
  have "\<not> spec_invalid_request ?e text_deep"
    by (simp add: spec_invalid_request_def sample_env_fields sample_deep deep_document_shape
        length_text_deep)
  moreover have "validateRequest 4000 (Number_toString ?e) deep_document = Inl RangeError"
    by (rule validateRequest_deep) (simp_all add: deep_document_shape)
  then have "parse_and_validate ?e (Value text_deep) = Inl RangeError"
    by (simp add: parse_and_validate_def sample_env_fields sample_deep)
  then have "returned (handler ?e Map.empty (post_event (Value text_deep))) =
       Inr \<lparr>statusCode = 400, headers = [content_type_json],
            body = error_body ?e msg_invalid_request\<rparr>"
    by (simp add: handler_unfold [OF post_event_fields(1)] post_event_fields
        sample_env_fields sample_admitted)
  ultimately show ?thesis by simp
qed



text \<open>
  C6, as the code has it. For a validated body and a configured credential the handler
  makes exactly one outbound call: a POST to the endpoint with the key, with the header
  \<open>Content-Type: application/json\<close> and, as its body, the text \<open>JSON.stringify\<close> writes for
  the document that the inbound body parsed to. When the upstream answers with a status
  from 200 to 299 and a body that parses, the handler returns 200, the three headers and
  the text of the parsed answer, provided \<open>JSON.stringify\<close> can serialise the answer;
  when the answer is nested deeper than the stack of the engine allows, it returns the
  generic 500. Reading the text of a document back gives the same members and elements,
  in the same order, with the same keys and values, except that every infinite number has
  become \<open>null\<close>.
\<close>

theorem forwards_verbatim:
  assumes "event.headers ev = Value hs"
    and "fst (checkRateLimit (Date_now e) rl (clientIp hs))"
    and "httpMethod ev = Value (ascii ''POST'')"
    and "parse_and_validate e (event.body ev) = Inr b"
    and "GEMINI_API_KEY e = Some k" and "k \<noteq> []"
  shows "JSON_parse e (ToString (event.body ev)) = Some b
       \<and> filter is_fetch (effects (handler e rl ev)) =
           [Fetch (Request (GOOGLE_API_URL k) (ascii ''POST'') [content_type_json]
                     (json_text (Number_toString e) b))]
       \<and> (\<forall>status data.
            ok status \<and> fetch e (upstream_request e k b) = Resolves status (Inr data) \<longrightarrow>
            returned (handler e rl ev) =
              Inr (if nesting data \<le> stack_limit e
                   then \<lparr>statusCode = 200,
                         headers = [content_type_json,
                           (ascii ''Cache-Control'', ascii ''no-store, no-cache, must-revalidate''),
                           (ascii ''X-Content-Type-Options'', ascii ''nosniff'')],
                         body = json_text (Number_toString e) data\<rparr>
                   else \<lparr>statusCode = 500, headers = [content_type_json],
                         body = error_body e msg_server_error\<rparr>))
       \<and> (\<forall>rn v. (\<forall>q\<in>set (numbers v). reads_number (Number_toString e) rn q) \<longrightarrow>
            read_json rn (json_text (Number_toString e) v) = Some (nullify v))"
proof (intro conjI allI impI)
  show "JSON_parse e (ToString (event.body ev)) = Some b"
    using assms(4) by (simp add: parse_and_validate_Inr)
  show "filter is_fetch (effects (handler e rl ev)) =
           [Fetch (Request (GOOGLE_API_URL k) (ascii ''POST'') [content_type_json]
                     (json_text (Number_toString e) b))]"
    using call_upstream_fetch [OF valid_stringify [OF assms(4)], of k]
    by (simp add: handler_forwards [OF assms] upstream_request_def)
next
  fix status data
  assume "ok status \<and> fetch e (upstream_request e k b) = Resolves status (Inr data)"
  then show "returned (handler e rl ev) =
              Inr (if nesting data \<le> stack_limit e
                   then \<lparr>statusCode = 200,
                         headers = [content_type_json,
                           (ascii ''Cache-Control'', ascii ''no-store, no-cache, must-revalidate''),
                           (ascii ''X-Content-Type-Options'', ascii ''nosniff'')],
                         body = json_text (Number_toString e) data\<rparr>
                   else \<lparr>statusCode = 500, headers = [content_type_json],
                         body = error_body e msg_server_error\<rparr>)"
    by (simp add: handler_forwards [OF assms]
        call_upstream_serialised [OF valid_stringify [OF assms(4)]])
next
  fix rn v
  assume "\<forall>q\<in>set (numbers v). reads_number (Number_toString e) rn q"
  then show "read_json rn (json_text (Number_toString e) v) = Some (nullify v)"
    by (rule read_json_text)
qed

text \<open>
  The body \<^verbatim>\<open>{"contents": []}\<close> goes out as \<^verbatim>\<open>{"contents":[]}\<close>, and the answer
  \<^verbatim>\<open>{"foo":"bar"}\<close> comes back with 200. The text of the document
  \<^verbatim>\<open>{"contents":[0],"x":Infinity}\<close> reads back as \<^verbatim>\<open>{"contents":[0],"x":null}\<close>.
\<close>

theorem forwards_verbatim_witness:
  "ok 200
   \<and> filter is_fetch (effects (handler (sample_env (Some (ascii ''secret'')) answer_foo_bar)
        Map.empty (post_event (Value text_contents_empty)))) =
       [Fetch (Request (GOOGLE_API_URL (ascii ''secret'')) (ascii ''POST'') [content_type_json]
          (ascii ''{'' @ [0x22] @ ascii ''contents'' @ [0x22] @ ascii '':[]}''))]
   \<and> returned (handler (sample_env (Some (ascii ''secret'')) answer_foo_bar) Map.empty
        (post_event (Value text_contents_empty))) =
       Inr \<lparr>statusCode = 200,
            headers = [content_type_json,
              (ascii ''Cache-Control'', ascii ''no-store, no-cache, must-revalidate''),
              (ascii ''X-Content-Type-Options'', ascii ''nosniff'')],
            body = ascii ''{'' @ [0x22] @ ascii ''foo'' @ [0x22] @ ascii '':''
                     @ [0x22] @ ascii ''bar'' @ [0x22] @ ascii ''}''\<rparr>
   \<and> reads_number (\<lambda>q. ascii ''0'') sample_read_number 0
   \<and> read_json sample_read_number
        (json_text (\<lambda>q. ascii ''0'')
           (JObj [(ascii ''contents'', JArr [JNum (Finite 0)]), (ascii ''x'', JNum PosInfinity)])) =
       Some (JObj [(ascii ''contents'', JArr [JNum (Finite 0)]), (ascii ''x'', JNull)])"
proof -
  let ?e = "sample_env (Some (ascii ''secret'')) answer_foo_bar"
  let ?v = "JObj [(ascii ''contents'', JArr [JNum (Finite 0)]), (ascii ''x'', JNum PosInfinity)]"
  have p: "event.headers (post_event b) = Value sample_headers" for b
    by (simp add: post_event_fields)
  have a: "fst (checkRateLimit (Date_now ?e) Map.empty (clientIp sample_headers))"
    by (simp add: sample_env_fields sample_admitted)
  have m: "httpMethod (post_event b) = Value (ascii ''POST'')" for b
    by (simp add: post_event_fields)
  have v: "parse_and_validate ?e (event.body (post_event (Value text_contents_empty))) =
           Inr (JObj [(ascii ''contents'', JArr [])])"
    by (simp add: post_event_fields sample_valid)
  have k: "GEMINI_API_KEY ?e = Some (ascii ''secret'')"
    by (simp add: sample_env_fields)
  have ok: "ok 200"
    by (simp add: ok_def)
  have f: "fetch ?e r = Resolves 200 (Inr (JObj [(ascii ''foo'', JStr (ascii ''bar''))]))" for r
    by (simp add: sample_env_fields answer_foo_bar_def)
  have ts: "Number_toString ?e = (\<lambda>q. ascii ''0'')"
    by (simp add: sample_env_def)
  have zero: "reads_number (\<lambda>q. ascii ''0'') sample_read_number 0"
    by (simp add: reads_number_def sample_read_number_def ascii_def)
  then have nums: "\<forall>q\<in>set (numbers ?v). reads_number (Number_toString ?e) sample_read_number q"
    by (simp add: ts)
  note inst = forwards_verbatim [OF p a m v k secret_not_empty]
  from inst have sent: "filter is_fetch (effects (handler ?e Map.empty
        (post_event (Value text_contents_empty)))) =
       [Fetch (Request (GOOGLE_API_URL (ascii ''secret'')) (ascii ''POST'') [content_type_json]
          (json_text (Number_toString ?e) (JObj [(ascii ''contents'', JArr [])])))]"
    by blast
  from inst ok f have answered: "returned (handler ?e Map.empty
        (post_event (Value text_contents_empty))) =
       Inr \<lparr>statusCode = 200,
            headers = [content_type_json,
              (ascii ''Cache-Control'', ascii ''no-store, no-cache, must-revalidate''),
              (ascii ''X-Content-Type-Options'', ascii ''nosniff'')],
            body = json_text (Number_toString ?e) (JObj [(ascii ''foo'', JStr (ascii ''bar''))])\<rparr>"
    by (simp add: sample_env_fields)
  from inst nums have "read_json sample_read_number (json_text (Number_toString ?e) ?v)
      = Some (nullify ?v)"
    by blast
  then have read: "read_json sample_read_number (json_text (\<lambda>q. ascii ''0'') ?v) =
       Some (JObj [(ascii ''contents'', JArr [JNum (Finite 0)]), (ascii ''x'', JNull)])"
    by (simp add: ts)
  from sent answered have
    "filter is_fetch (effects (handler ?e Map.empty (post_event (Value text_contents_empty)))) =
       [Fetch (Request (GOOGLE_API_URL (ascii ''secret'')) (ascii ''POST'') [content_type_json]
          (ascii ''{'' @ [0x22] @ ascii ''contents'' @ [0x22] @ ascii '':[]}''))]"
    "returned (handler ?e Map.empty (post_event (Value text_contents_empty))) =
       Inr \<lparr>statusCode = 200,
            headers = [content_type_json,
              (ascii ''Cache-Control'', ascii ''no-store, no-cache, must-revalidate''),
              (ascii ''X-Content-Type-Options'', ascii ''nosniff'')],
            body = ascii ''{'' @ [0x22] @ ascii ''foo'' @ [0x22] @ ascii '':''
                     @ [0x22] @ ascii ''bar'' @ [0x22] @ ascii ''}''\<rparr>"
    by (simp_all add: QuoteJSONString_def ascii_def quote_unit_def is_high_surrogate_def
        is_low_surrogate_def)
  with ok zero read show ?thesis by blast
qed

text \<open>
  C6 as stated fails twice. An upstream answer with status 200 whose document is 4500
  arrays deep parses, \<open>JSON.stringify\<close> throws on it inside the \<open>try\<close>, and the handler
  returns the generic 500, not 200. And the inbound body \<^verbatim>\<open>{"contents":[],"x":1e999}\<close>
  parses to a document whose \<open>x\<close> is \<open>Infinity\<close> and goes out as
  \<^verbatim>\<open>{"contents":[],"x":null}\<close>: a field is rewritten.
\<close>

theorem deep_answer_500:
  "ok 200
   \<and> returned (handler (sample_env (Some (ascii ''secret''))
                  (Resolves 200 (Inr (nest_array 4499))))
        Map.empty (post_event (Value text_contents_empty))) =
       Inr \<lparr>statusCode = 500, headers = [content_type_json],
            body = error_body (sample_env (Some (ascii ''secret''))
                     (Resolves 200 (Inr (nest_array 4499)))) msg_server_error\<rparr>
   \<and> JSON_parse (sample_env (Some (ascii ''secret'')) answer_foo_bar) text_infinite =
       Some (JObj [(ascii ''contents'', JArr []), (ascii ''x'', JNum PosInfinity)])
   \<and> filter is_fetch (effects (handler (sample_env (Some (ascii ''secret'')) answer_foo_bar)
        Map.empty (post_event (Value text_infinite)))) =
       [Fetch (Request (GOOGLE_API_URL (ascii ''secret'')) (ascii ''POST'') [content_type_json]
          (ascii ''{'' @ [0x22] @ ascii ''contents'' @ [0x22] @ ascii '':[],'' @ [0x22]
             @ ascii ''x'' @ [0x22] @ ascii '':null}''))]"
proof -
  let ?deep = "sample_env (Some (ascii ''secret'')) (Resolves 200 (Inr (nest_array 4499)))"
  let ?e = "sample_env (Some (ascii ''secret'')) answer_foo_bar"
  have ok: "ok 200"
    by (simp add: ok_def)
  have "handler ?deep Map.empty (post_event (Value text_contents_empty)) =
     \<lparr>returned = Inr (fst (call_upstream ?deep (ascii ''secret'')
                      (JObj [(ascii ''contents'', JArr [])]))),
      rateLimit = snd (checkRateLimit (Date_now ?deep) Map.empty (clientIp sample_headers)),
      effects = snd (call_upstream ?deep (ascii ''secret'')
                      (JObj [(ascii ''contents'', JArr [])]))\<rparr>"
    by (rule handler_forwards)
      (simp_all add: post_event_fields sample_env_fields sample_admitted sample_valid
        secret_not_empty)
  moreover have "fst (call_upstream ?deep (ascii ''secret'')
                      (JObj [(ascii ''contents'', JArr [])])) =
       \<lparr>statusCode = 500, headers = [content_type_json],
        body = error_body ?deep msg_server_error\<rparr>"
    using ok
    by (simp add: call_upstream_serialised [OF valid_stringify [OF sample_valid]]
        sample_env_fields nesting_nest_array)
  ultimately have deep: "returned (handler ?deep Map.empty
        (post_event (Value text_contents_empty))) =
       Inr \<lparr>statusCode = 500, headers = [content_type_json],
            body = error_body ?deep msg_server_error\<rparr>"
    by simp
  have parsed: "JSON_parse ?e text_infinite =
       Some (JObj [(ascii ''contents'', JArr []), (ascii ''x'', JNum PosInfinity)])"
    by (simp add: sample_env_fields sample_infinite infinite_document_def)
  have valid: "parse_and_validate ?e (Value text_infinite) = Inr infinite_document"
    by (simp add: parse_and_validate_Inr sample_env_fields sample_infinite)
      (simp add: infinite_document_def MAX_PAYLOAD_SIZE_def QuoteJSONString_def ascii_def
        quote_unit_def is_high_surrogate_def is_low_surrogate_def)
  have "handler ?e Map.empty (post_event (Value text_infinite)) =
     \<lparr>returned = Inr (fst (call_upstream ?e (ascii ''secret'') infinite_document)),
      rateLimit = snd (checkRateLimit (Date_now ?e) Map.empty (clientIp sample_headers)),
      effects = snd (call_upstream ?e (ascii ''secret'') infinite_document)\<rparr>"
    by (rule handler_forwards)
      (simp_all add: post_event_fields sample_env_fields sample_admitted valid
        secret_not_empty)
  then have "filter is_fetch (effects (handler ?e Map.empty (post_event (Value text_infinite))))
      = [Fetch (upstream_request ?e (ascii ''secret'') infinite_document)]"
    using call_upstream_fetch [OF valid_stringify [OF valid], of "ascii ''secret''"] by simp
  then have sent: "filter is_fetch (effects (handler ?e Map.empty
        (post_event (Value text_infinite)))) =
       [Fetch (Request (GOOGLE_API_URL (ascii ''secret'')) (ascii ''POST'') [content_type_json]
          (ascii ''{'' @ [0x22] @ ascii ''contents'' @ [0x22] @ ascii '':[],'' @ [0x22]
             @ ascii ''x'' @ [0x22] @ ascii '':null}''))]"
    by (simp add: upstream_request_def infinite_document_def QuoteJSONString_def ascii_def
        quote_unit_def is_high_surrogate_def is_low_surrogate_def)
  from ok deep parsed sent show ?thesis by blast
qed



text \<open>
  C10. Whatever its method, a request that passes the limiter is recorded before the
  method is looked at: the handler leaves the map that \<open>checkRateLimit\<close> wrote, with
  \<open>now\<close> appended to the kept instants of the client, the same map that the same request
  sent as a POST leaves. A request that is not a POST is answered 405 and has used one
  unit of the client's quota all the same.
\<close>

theorem non_post_consumes_quota:
  assumes "event.headers ev = Value hs"
    and "fst (checkRateLimit (Date_now e) rl (clientIp hs))"
  shows "rateLimit (handler e rl ev) =
           rl(clientIp hs \<mapsto> recentRequests (Date_now e) rl (clientIp hs) @ [Date_now e])
       \<and> rateLimit (handler e rl ev) =
           rateLimit (handler e rl (ev\<lparr>httpMethod := Value (ascii ''POST'')\<rparr>))
       \<and> length (userRequests (rateLimit (handler e rl ev)) (clientIp hs)) =
           length (recentRequests (Date_now e) rl (clientIp hs)) + 1
       \<and> (httpMethod ev \<noteq> Value (ascii ''POST'') \<longrightarrow>
            returned (handler e rl ev) =
              Inr \<lparr>statusCode = 405,
                   headers = [content_type_json, (ascii ''Allow'', ascii ''POST'')],
                   body = error_body e (ascii ''Method not allowed'')\<rparr>)"
proof -
  have stored: "rateLimit (handler e rl ev') = snd (checkRateLimit (Date_now e) rl (clientIp hs))"
    if "event.headers ev' = Value hs" for ev'
    by (auto simp: handler_unfold [OF that] Let_def misconfigured_def
        split: sum.split option.split)
  have written: "snd (checkRateLimit (Date_now e) rl (clientIp hs)) =
      rl(clientIp hs \<mapsto> recentRequests (Date_now e) rl (clientIp hs) @ [Date_now e])"
    using assms(2) by (simp add: checkRateLimit_def split: if_splits)
  have "event.headers (ev\<lparr>httpMethod := Value (ascii ''POST'')\<rparr>) = Value hs"
    using assms(1) by simp
  from stored [OF assms(1)] stored [OF this] written assms(2) show ?thesis
    by (simp add: handler_unfold [OF assms(1)] Let_def userRequests_def)
qed

text \<open>A GET of a fresh client is answered 405 and leaves one instant stored for the client.\<close>

theorem non_post_consumes_quota_witness:
  "fst (checkRateLimit 60004 Map.empty (clientIp sample_headers))
   \<and> rateLimit (handler (sample_env None answer_foo_bar) Map.empty get_event) =
       [clientIp sample_headers \<mapsto> [60004]]
   \<and> returned (handler (sample_env None answer_foo_bar) Map.empty get_event) =
       Inr \<lparr>statusCode = 405,
            headers = [content_type_json, (ascii ''Allow'', ascii ''POST'')],
            body = error_body (sample_env None answer_foo_bar) (ascii ''Method not allowed'')\<rparr>"
proof -
  let ?e = "sample_env None answer_foo_bar"
  have g: "event.headers get_event = Value sample_headers"
    by (simp add: get_event_fields)
  have a: "fst (checkRateLimit (Date_now ?e) Map.empty (clientIp sample_headers))"
    by (simp add: sample_env_fields sample_admitted)
  have r: "recentRequests 60004 Map.empty ip = []" for ip
    by (simp add: recentRequests_def userRequests_def)
  from non_post_consumes_quota [OF g a] a show ?thesis
    by (simp add: sample_env_fields get_event_fields r)
qed

end
